theory Spec2Isabelle
  imports Complex_Main "HOL-Library.Signed_Division"
begin

section \<open>The lattice planner: data\<close>

text \<open>
  Source: \<^verbatim>\<open>src/search_based_global_planner/src/search_based_global_planner.cc\<close>.
  The class \<^verbatim>\<open>SearchBasedGlobalPlanner\<close> works on pointers to \<^verbatim>\<open>EnvironmentEntry3D\<close> objects
  owned by the environment. An entry is identified here by its lattice cell (x, y, theta), the
  planner state carries the store from cells to entry fields, and a null pointer is \<open>None\<close>.
  The headers declaring \<^verbatim>\<open>EnvironmentEntry3D\<close>, \<^verbatim>\<open>Environment\<close>, the heap and the planner's
  members are not among the sources; the fields below are the ones the source file reads and
  writes. Costs are C \<^verbatim>\<open>int\<close>s, modelled as unbounded integers (no cost in the theorems
  comes near the 32-bit range), \<open>eps\<close> values are doubles, modelled as reals. The
  iteration counters start at 0 and are only ever incremented; they are naturals.
\<close>

type_synonym cell = "int \<times> int \<times> int"
type_synonym key = "real \<times> int"
type_synonym XYThetaPoint = "real \<times> real \<times> real"
type_synonym XYCell = "int \<times> int"

record entry =
  g :: int
  rhs :: int
  key :: key
  best_next_entry :: "cell option"
  visited_iteration :: nat
  closed_iteration :: nat

text \<open>
  The calls the planner makes on \<^verbatim>\<open>env_\<close>, as parameters: the class \<^verbatim>\<open>Environment\<close> is not among
  the sources. \<open>GetEnvEntry x y theta\<close> is the entry of a cell, \<open>None\<close> for the null pointer;
  \<open>GetSuccs\<close> gives successor, cost and intermediate points of each motion primitive;
  \<open>GetPreds\<close> gives predecessor and cost; \<open>GetHeuristic\<close> is the heuristic of a cell;
  \<open>ReInitialize\<close> is what \<^verbatim>\<open>env_->ReInitialize()\<close> does to the entry store.
\<close>

record environment =
  GetEnvEntry :: "int \<Rightarrow> int \<Rightarrow> int \<Rightarrow> cell option"
  GetSuccs :: "cell \<Rightarrow> (cell \<times> int \<times> XYThetaPoint list) list"
  GetPreds :: "cell \<Rightarrow> (cell \<times> int) list"
  GetHeuristic :: "int \<Rightarrow> int \<Rightarrow> int"
  GetAffectedPredCells :: "cell list"
  ReInitialize :: "(cell \<Rightarrow> entry) \<Rightarrow> (cell \<Rightarrow> entry)"
  DISCXY2CONT :: "int \<Rightarrow> real"

text \<open>
  The members of \<^verbatim>\<open>SearchBasedGlobalPlanner\<close> that the search reads or writes, under the
  source's names without the trailing underscore; \<open>open_heap\<close> is \<^verbatim>\<open>open_\<close> and \<open>inconsist\<close>
  is \<^verbatim>\<open>inconsist_\<close>. \<open>start_entry\<close> and \<open>goal_entry\<close> are the pointers \<^verbatim>\<open>start_entry_\<close> and
  \<^verbatim>\<open>goal_entry_\<close>, with \<open>None\<close> for null; the search dereferences them (\<open>the\<close>), as the
  source does, and \<^verbatim>\<open>makePlan\<close> reaches the search only after its null test. The constructor
  sets \<open>iteration\<close> and \<open>environment_iteration\<close> to 0 (lines 139-140).
\<close>

record planner =
  entries :: "cell \<Rightarrow> entry"
  open_heap :: "cell list"
  inconsist :: "cell list"
  eps :: real
  epsilon_satisfied :: real
  initial_epsilon :: real
  iteration :: nat
  environment_iteration :: nat
  need_to_reinitialize_environment :: bool
  start_entry :: "cell option"
  goal_entry :: "cell option"
  first_met_entry :: cell
  goal_entry_list :: "cell list"
  broader_start_and_goal :: bool
  force_scratch_limit :: int
  map_size :: int
  size_dir :: int

text \<open>
  Modelled from the spec: the macro \<^verbatim>\<open>INFINITECOST\<close> is defined in a header that is not among
  the sources. The spec writes it as infinity; the value is the one of the SBPL library the
  planner follows. The theorems use only that it is a fixed integer above every cost that
  occurs.
\<close>

definition INFINITECOST :: int where
  "INFINITECOST = 1000000000"

text \<open>
  Modelled from the spec: \<^verbatim>\<open>COMPUTEKEY\<close> and the key type are declared in a header that is not
  among the sources. The spec gives the key of an entry as the pair of
  \<open>min g rhs + eps * h\<close> and \<open>min g rhs\<close>, compared lexicographically.
\<close>

definition ComputeKey :: "real \<Rightarrow> int \<Rightarrow> entry \<Rightarrow> key" where
  "ComputeKey e h en =
     (real_of_int (min (g en) (rhs en)) + e * real_of_int h, min (g en) (rhs en))"

definition key_less :: "key \<Rightarrow> key \<Rightarrow> bool" where
  "key_less a b = (fst a < fst b \<or> (fst a = fst b \<and> snd a < snd b))"

definition upd_entry :: "planner \<Rightarrow> cell \<Rightarrow> (entry \<Rightarrow> entry) \<Rightarrow> planner" where
  "upd_entry st c f = st\<lparr>entries := (entries st)(c := f (entries st c))\<rparr>"

definition COMPUTEKEY :: "environment \<Rightarrow> cell \<Rightarrow> planner \<Rightarrow> planner" where
  "COMPUTEKEY E c st =
     upd_entry st c (\<lambda>e. e\<lparr>key := ComputeKey (eps st) (GetHeuristic E (fst c) (fst (snd c))) e\<rparr>)"

text \<open>
  Modelled from the spec: the heap class of \<^verbatim>\<open>open_\<close> is not among the sources. The heap is
  the list of its members; \<open>heap_top\<close> is a member of least stored key (the first of them in
  list order), \<open>None\<close> when the heap is empty; \<open>adjust\<close> after \<^verbatim>\<open>COMPUTEKEY\<close> changes nothing,
  since keys are read from the entry store.
\<close>

fun heap_min :: "(cell \<Rightarrow> entry) \<Rightarrow> cell \<Rightarrow> cell list \<Rightarrow> cell" where
  "heap_min en m [] = m"
| "heap_min en m (c # cs) =
     heap_min en (if key_less (key (en c)) (key (en m)) then c else m) cs"

definition heap_top :: "planner \<Rightarrow> cell option" where
  "heap_top st = (case open_heap st of [] \<Rightarrow> None | c # cs \<Rightarrow> Some (heap_min (entries st) c cs))"

definition heap_push :: "cell \<Rightarrow> planner \<Rightarrow> planner" where
  "heap_push c st = st\<lparr>open_heap := open_heap st @ [c]\<rparr>"

definition heap_erase :: "cell \<Rightarrow> planner \<Rightarrow> planner" where
  "heap_erase c st = st\<lparr>open_heap := removeAll c (open_heap st)\<rparr>"

definition heap_contain :: "planner \<Rightarrow> cell \<Rightarrow> bool" where
  "heap_contain st c = (c \<in> set (open_heap st))"

section \<open>The search\<close>

text \<open>
  \<^verbatim>\<open>RecomputeRHSVal\<close>, lines 186-200: the loop over the successors lowers \<open>rhs\<close> and moves
  \<open>best_next_entry\<close> whenever a visited successor offers less than the current \<open>rhs\<close>. The
  source does not reset \<open>rhs\<close> before the loop.
\<close>

fun RecomputeRHSVal_loop ::
  "cell \<Rightarrow> (cell \<times> int \<times> XYThetaPoint list) list \<Rightarrow> planner \<Rightarrow> planner" where
  "RecomputeRHSVal_loop c [] st = st"
| "RecomputeRHSVal_loop c ((s, cost, act) # rest) st =
     (if visited_iteration (entries st s) \<noteq> environment_iteration st
      then RecomputeRHSVal_loop c rest st
      else if rhs (entries st c) > cost + g (entries st s)
      then RecomputeRHSVal_loop c rest
             (upd_entry st c (\<lambda>e. e\<lparr>rhs := cost + g (entries st s), best_next_entry := Some s\<rparr>))
      else RecomputeRHSVal_loop c rest st)"

definition RecomputeRHSVal :: "environment \<Rightarrow> cell \<Rightarrow> planner \<Rightarrow> planner" where
  "RecomputeRHSVal E c st = RecomputeRHSVal_loop c (GetSuccs E c) st"

text \<open>
  \<^verbatim>\<open>UpdateSetMembership\<close>, lines 202-222. \<^verbatim>\<open>inconsist_.insert\<close> is insertion into a set.
\<close>

definition UpdateSetMembership :: "environment \<Rightarrow> cell \<Rightarrow> planner \<Rightarrow> planner" where
  "UpdateSetMembership E c st =
     (if rhs (entries st c) \<noteq> g (entries st c) then
        if closed_iteration (entries st c) \<noteq> iteration st then
          (let st1 = COMPUTEKEY E c st
           in if \<not> heap_contain st1 c then heap_push c st1 else st1)
        else st\<lparr>inconsist := List.insert c (inconsist st)\<rparr>
      else if heap_contain st c then heap_erase c st else st)"

text \<open>
  \<^verbatim>\<open>UpdateStateOfUnderConsist\<close> (lines 224-243) and \<^verbatim>\<open>UpdateStateOfOverConsist\<close>
  (lines 245-266): both loops first mark a predecessor not yet visited in this environment
  iteration (\<open>visit_pred\<close>).
\<close>

definition visit_pred :: "cell \<Rightarrow> planner \<Rightarrow> planner" where
  "visit_pred p st =
     (if visited_iteration (entries st p) \<noteq> environment_iteration st
      then upd_entry st p (\<lambda>e. e\<lparr>g := INFINITECOST, visited_iteration := environment_iteration st\<rparr>)
      else st)"

fun UpdateStateOfUnderConsist_loop ::
  "environment \<Rightarrow> cell \<Rightarrow> (cell \<times> int) list \<Rightarrow> planner \<Rightarrow> planner" where
  "UpdateStateOfUnderConsist_loop E c [] st = st"
| "UpdateStateOfUnderConsist_loop E c ((p, cost) # ps) st =
     (let st1 = visit_pred p st;
          st2 = (if best_next_entry (entries st1 p) = Some c
                 then UpdateSetMembership E p (RecomputeRHSVal E p st1) else st1)
      in UpdateStateOfUnderConsist_loop E c ps st2)"

definition UpdateStateOfUnderConsist :: "environment \<Rightarrow> cell \<Rightarrow> planner \<Rightarrow> planner" where
  "UpdateStateOfUnderConsist E c st = UpdateStateOfUnderConsist_loop E c (GetPreds E c) st"

fun UpdateStateOfOverConsist_loop ::
  "environment \<Rightarrow> cell \<Rightarrow> (cell \<times> int) list \<Rightarrow> planner \<Rightarrow> planner" where
  "UpdateStateOfOverConsist_loop E c [] st = st"
| "UpdateStateOfOverConsist_loop E c ((p, cost) # ps) st =
     (let st1 = visit_pred p st;
          st2 = (if rhs (entries st1 p) > cost + g (entries st1 c)
                 then UpdateSetMembership E p
                        (upd_entry st1 p (\<lambda>e. e\<lparr>rhs := cost + g (entries st1 c), best_next_entry := Some c\<rparr>))
                 else st1)
      in UpdateStateOfOverConsist_loop E c ps st2)"

definition UpdateStateOfOverConsist :: "environment \<Rightarrow> cell \<Rightarrow> planner \<Rightarrow> planner" where
  "UpdateStateOfOverConsist E c st = UpdateStateOfOverConsist_loop E c (GetPreds E c) st"

text \<open>
  \<^verbatim>\<open>ComputeOrImprovePath\<close>, lines 268-341. The time test
  \<^verbatim>\<open>GetTimeInSeconds() - start_time_ < allocated_time_\<close> of the expansion loop is a budget
  \<open>b\<close>: the number of times the test passes in this call. \<open>search_over\<close> is the inner loop
  over the start entries, \<open>expand_entry\<close> the body after it.
\<close>

definition start_entry_list :: "environment \<Rightarrow> planner \<Rightarrow> cell list" where
  "start_entry_list E st =
     (if broader_start_and_goal st then
        (case the (start_entry st) of (start_x, start_y, start_theta) \<Rightarrow>
           List.map_filter (\<lambda>(i, j). GetEnvEntry E (start_x + i) (start_y + j) start_theta)
             [(i, j). i \<leftarrow> [-2, -1, 0, 1, 2], j \<leftarrow> [-2, -1, 0, 1, 2], \<not> (i \<noteq> 0 \<and> j \<noteq> 0)])
      else [the (start_entry st)])"

fun search_over :: "environment \<Rightarrow> cell \<Rightarrow> cell list \<Rightarrow> planner \<Rightarrow> bool \<times> planner" where
  "search_over E m [] st = (False, st)"
| "search_over E m (s # ss) st =
     (let st1 = COMPUTEKEY E m st;
          kmin = key (entries st1 m);
          st2 = COMPUTEKEY E s st1
      in if \<not> key_less kmin (key (entries st2 s)) \<and> rhs (entries st2 s) = g (entries st2 s)
         then (True, st2\<lparr>first_met_entry := s\<rparr>)
         else search_over E m ss st2)"

definition expand_entry :: "environment \<Rightarrow> cell \<Rightarrow> planner \<Rightarrow> planner" where
  "expand_entry E m st =
     (let st1 = heap_erase m st
      in if g (entries st1 m) > rhs (entries st1 m) then
           UpdateStateOfOverConsist E m
             (upd_entry st1 m (\<lambda>e. e\<lparr>g := rhs e, closed_iteration := iteration st1\<rparr>))
         else
           UpdateStateOfUnderConsist E m
             (UpdateSetMembership E m (upd_entry st1 m (\<lambda>e. e\<lparr>g := INFINITECOST\<rparr>))))"

fun ComputeOrImprovePath_loop ::
  "environment \<Rightarrow> cell list \<Rightarrow> nat \<Rightarrow> planner \<Rightarrow> planner" where
  "ComputeOrImprovePath_loop E sl 0 st = st"
| "ComputeOrImprovePath_loop E sl (Suc b) st =
     (case heap_top st of
        None \<Rightarrow> st
      | Some m \<Rightarrow>
          (let r = search_over E m sl st
           in if fst r then snd r
              else ComputeOrImprovePath_loop E sl b (expand_entry E m (snd r))))"

definition ComputeOrImprovePath :: "environment \<Rightarrow> nat \<Rightarrow> planner \<Rightarrow> bool \<times> planner" where
  "ComputeOrImprovePath E b st =
     (let sl = start_entry_list E st;
          st1 = ComputeOrImprovePath_loop E sl b (st\<lparr>first_met_entry := the (start_entry st)\<rparr>);
          fm = first_met_entry st1
      in if rhs (entries st1 fm) = INFINITECOST \<and> open_heap st1 = [] then (False, st1)
         else case heap_top st1 of
           None \<Rightarrow> (True, st1)
         | Some m \<Rightarrow>
           (let kmin = key (entries st1 m);
                st2 = COMPUTEKEY E fm st1
            in if key_less kmin (key (entries st2 fm)) \<or> rhs (entries st2 fm) > g (entries st2 fm)
               then (False, st2)
               else if rhs (entries st2 fm) = INFINITECOST then (False, st2)
               else (True, st2)))"

text \<open>
  \<^verbatim>\<open>GetEntryPath\<close>, lines 343-375. The loop follows \<open>best_next_entry\<close> pointers and need not
  end on a cyclic store, so it runs on fuel and \<open>None\<close> is the run that does not return. The
  two \<^verbatim>\<open>break\<close>s end in the cleared path, the early \<^verbatim>\<open>return\<close> keeps the path built so far.
\<close>

fun GetEntryPath_loop :: "nat \<Rightarrow> planner \<Rightarrow> cell \<Rightarrow> cell list \<Rightarrow> cell list option" where
  "GetEntryPath_loop n st e path =
     (if e = the (goal_entry st) then Some path
      else case n of
        0 \<Rightarrow> None
      | Suc k \<Rightarrow>
         (case best_next_entry (entries st e) of
            None \<Rightarrow> Some []
          | Some nx \<Rightarrow>
              if rhs (entries st e) = INFINITECOST then Some []
              else if g (entries st e) < rhs (entries st e) then Some path
              else GetEntryPath_loop k st nx (path @ [nx])))"

definition GetEntryPath :: "nat \<Rightarrow> planner \<Rightarrow> cell list option" where
  "GetEntryPath fuel st = GetEntryPath_loop fuel st (first_met_entry st) [first_met_entry st]"

text \<open>
  \<^verbatim>\<open>GetPointPathFromEntryPath\<close>, lines 377-433; \<open>best_action\<close> is the scan for the cheapest
  action to the target. The \<^verbatim>\<open>path_info\<close> output is left out.
\<close>

fun best_action ::
  "cell \<Rightarrow> (cell \<times> int \<times> XYThetaPoint list) list \<Rightarrow> int \<Rightarrow> XYThetaPoint list option
     \<Rightarrow> int \<times> XYThetaPoint list option" where
  "best_action t [] best_cost best = (best_cost, best)"
| "best_action t ((s, cost, act) # rest) best_cost best =
     (if s = t \<and> cost \<le> best_cost then best_action t rest cost (Some act)
      else best_action t rest best_cost best)"

fun GetPointPath_loop ::
  "environment \<Rightarrow> planner \<Rightarrow> cell list \<Rightarrow> XYThetaPoint list \<Rightarrow> XYThetaPoint list" where
  "GetPointPath_loop E st (source # target # rest) pts =
     (case snd (best_action target (GetSuccs E source) INFINITECOST None) of
        None \<Rightarrow>
          (if broader_start_and_goal st \<and> source \<in> set (goal_entry_list st) \<and> target = the (goal_entry st)
           then pts else [])
      | Some interm_pts \<Rightarrow>
          GetPointPath_loop E st (target # rest)
            (pts @ map (\<lambda>(x, y, th). (x + DISCXY2CONT E (fst source), y + DISCXY2CONT E (fst (snd source)), th))
                     (butlast interm_pts)))"
| "GetPointPath_loop E st path pts = pts"

definition GetPointPathFromEntryPath ::
  "environment \<Rightarrow> planner \<Rightarrow> cell list \<Rightarrow> XYThetaPoint list \<Rightarrow> XYThetaPoint list" where
  "GetPointPathFromEntryPath E st entry_path point_path =
     (if entry_path = [] then point_path else GetPointPath_loop E st entry_path [])"

text \<open>
  \<^verbatim>\<open>ReInitializeSearchEnvironment\<close>, lines 435-481; \<open>seed_goal_entries\<close> is the triple loop
  over the offsets, in the source's order.
\<close>

fun seed_goal_entries ::
  "environment \<Rightarrow> cell \<Rightarrow> (int \<times> int \<times> int) list \<Rightarrow> planner \<Rightarrow> planner" where
  "seed_goal_entries E gl [] st = st"
| "seed_goal_entries E gl ((i, j, k) # ds) st =
     (case GetEnvEntry E (fst gl + i) (fst (snd gl) + j) (snd (snd gl) + k) of
        None \<Rightarrow> seed_goal_entries E gl ds st
      | Some c \<Rightarrow>
          (let st1 = st\<lparr>goal_entry_list := goal_entry_list st @ [c]\<rparr>;
               st2 = upd_entry st1 c (\<lambda>e. e\<lparr>rhs := 0, visited_iteration := environment_iteration st1\<rparr>);
               st3 = (if i \<noteq> 0 \<or> j \<noteq> 0
                      then upd_entry st2 c (\<lambda>e. e\<lparr>best_next_entry := goal_entry st2\<rparr>) else st2)
           in seed_goal_entries E gl ds (heap_push c (COMPUTEKEY E c st3))))"

definition halo_offsets :: "(int \<times> int \<times> int) list" where
  "halo_offsets =
     [(i, j, k). i \<leftarrow> [-3, -2, -1, 0, 1, 2, 3], j \<leftarrow> [-3, -2, -1, 0, 1, 2, 3], k \<leftarrow> [-1, 0, 1]]"

definition ReInitializeSearchEnvironment :: "environment \<Rightarrow> planner \<Rightarrow> planner" where
  "ReInitializeSearchEnvironment E st =
     (let st1 = st\<lparr>entries := ReInitialize E (entries st), open_heap := [], inconsist := [],
                   eps := initial_epsilon st, epsilon_satisfied := real_of_int INFINITECOST,
                   environment_iteration := Suc (environment_iteration st), goal_entry_list := []\<rparr>;
          st2 = (if broader_start_and_goal st1
                 then seed_goal_entries E (the (goal_entry st1)) halo_offsets st1
                 else heap_push (the (goal_entry st1))
                        (COMPUTEKEY E (the (goal_entry st1))
                           (upd_entry st1 (the (goal_entry st1))
                              (\<lambda>e. e\<lparr>rhs := 0, visited_iteration := environment_iteration st1\<rparr>))))
      in st2\<lparr>need_to_reinitialize_environment := False\<rparr>)"

text \<open>
  \<^verbatim>\<open>search\<close>, lines 483-536. \<open>begin_pass\<close> is the body of the outer loop up to the call of
  \<^verbatim>\<open>ComputeOrImprovePath\<close>. The clock is a list with one entry per pass of the outer loop
  whose time test passes, giving the expansion budget of that pass; the empty list is a
  budget already over. \<open>search\<close> returns the flag, the caller's point path and the planner.
\<close>

definition begin_pass :: "environment \<Rightarrow> planner \<Rightarrow> planner" where
  "begin_pass E st =
     (let st1 = (if \<bar>epsilon_satisfied st - eps st\<bar> < 0.000001 then
                   (let e1 = (if eps st > 1 then eps st - 1 else eps st);
                        e2 = (if e1 < 1 then 1 else e1)
                    in st\<lparr>eps := e2, iteration := Suc (iteration st)\<rparr>)
                 else st);
          st2 = fold heap_push (inconsist st1) st1;
          st3 = st2\<lparr>inconsist := []\<rparr>
      in fold (COMPUTEKEY E) (open_heap st3) st3)"

fun search_loop :: "environment \<Rightarrow> nat list \<Rightarrow> planner \<Rightarrow> planner" where
  "search_loop E [] st = st"
| "search_loop E (b # bs) st =
     (if epsilon_satisfied st > 1 then
        (let r = ComputeOrImprovePath E b (begin_pass E st);
             st1 = (if fst r then (snd r)\<lparr>epsilon_satisfied := eps (snd r)\<rparr> else snd r)
         in if rhs (entries st1 (first_met_entry st1)) = INFINITECOST then st1
            else search_loop E bs st1)
      else st)"

definition search ::
  "environment \<Rightarrow> nat list \<Rightarrow> nat \<Rightarrow> planner \<Rightarrow> XYThetaPoint list
     \<Rightarrow> (bool \<times> XYThetaPoint list \<times> planner) option" where
  "search E clock fuel st point_path =
     (let st1 = (if need_to_reinitialize_environment st then ReInitializeSearchEnvironment E st else st);
          st2 = search_loop E clock st1
      in if rhs (entries st2 (first_met_entry st2)) = INFINITECOST
            \<or> epsilon_satisfied st2 = real_of_int INFINITECOST
         then Some (False, point_path, st2)
         else (case GetEntryPath fuel st2 of
                 None \<Rightarrow> None
               | Some entry_path \<Rightarrow>
                   Some (True, GetPointPathFromEntryPath E st2 entry_path point_path, st2)))"

text \<open>
  \<^verbatim>\<open>CostsChanged\<close>, lines 538-594. The \<^verbatim>\<open>exist\<close> array is the list of indices already seen.
  \<^verbatim>\<open>affected_entries.size()\<close> is a \<^verbatim>\<open>size_t\<close>, so the two bounds are converted to 64-bit
  unsigned before the comparison (\<open>size_gt\<close>); the members \<open>map_size\<close>, \<open>size_dir\<close> and
  \<open>force_scratch_limit\<close> are taken as signed integers.
\<close>

fun collect_affected ::
  "environment \<Rightarrow> planner \<Rightarrow> XYCell \<Rightarrow> cell list \<Rightarrow> int list \<times> cell list \<Rightarrow> int list \<times> cell list" where
  "collect_affected E st cell [] acc = acc"
| "collect_affected E st cell ((ax, ay, ath) # offs) (exist, affected) =
     (let x = ax + fst cell; y = ay + snd cell
      in case GetEnvEntry E x y ath of
           None \<Rightarrow> collect_affected E st cell offs (exist, affected)
         | Some c \<Rightarrow>
             (let index = ath + x * size_dir st + y * map_size st * size_dir st
              in if index \<in> set exist then collect_affected E st cell offs (exist, affected)
                 else collect_affected E st cell offs (index # exist, affected @ [c])))"

definition affected_entries :: "environment \<Rightarrow> planner \<Rightarrow> XYCell list \<Rightarrow> cell list" where
  "affected_entries E st changed_cells =
     snd (fold (\<lambda>cell acc. collect_affected E st cell (GetAffectedPredCells E) acc) changed_cells ([], []))"

definition size_gt :: "nat \<Rightarrow> int \<Rightarrow> bool" where
  "size_gt n v = (int n > v mod 18446744073709551616)"

definition CostsChanged :: "environment \<Rightarrow> XYCell list \<Rightarrow> planner \<Rightarrow> planner" where
  "CostsChanged E changed_cells st =
     (if need_to_reinitialize_environment st \<or> iteration st = 0 then st
      else
        (let affected = affected_entries E st changed_cells
         in if length affected \<le> 0 then st
            else
              (let st1 = (if size_gt (length affected) (map_size st * map_size st * size_dir st sdiv 10)
                             \<or> size_gt (length affected) (force_scratch_limit st)
                          then st\<lparr>need_to_reinitialize_environment := True\<rparr> else st);
                   st2 = fold (\<lambda>c s. if visited_iteration (entries s c) = environment_iteration s
                                       then UpdateSetMembership E c (RecomputeRHSVal E c s) else s)
                           affected st1
               in st2\<lparr>eps := initial_epsilon st2, epsilon_satisfied := real_of_int INFINITECOST\<rparr>)))"

text \<open>
  \<^verbatim>\<open>makePlan\<close>, lines 660-706: the part between the computation of the start and goal
  entries and the call of \<^verbatim>\<open>search\<close>. \<open>new_goal\<close> and \<open>new_start\<close> are the results of
  \<^verbatim>\<open>SetGoal\<close> and \<^verbatim>\<open>SetStart\<close>, \<open>changed_cells\<close> the cells whose cost differs from the stored
  one. The first component of the result tells whether the call goes on to the search:
  it is false for the return of lines 666-667, which comes after both pointers have been
  overwritten (lines 662-665) and before the flag is set (lines 673-677).
\<close>

definition makePlan_update ::
  "environment \<Rightarrow> cell option \<Rightarrow> cell option \<Rightarrow> XYCell list \<Rightarrow> planner \<Rightarrow> bool \<times> planner" where
  "makePlan_update E new_goal new_start changed_cells st =
     (let last_goal_entry = goal_entry st;
          last_start_entry = start_entry st;
          st1 = st\<lparr>goal_entry := new_goal, start_entry := new_start\<rparr>
      in if start_entry st1 = None \<or> goal_entry st1 = None then (False, st1)
         else
           (let st2 = (if last_start_entry \<noteq> start_entry st1
                       then st1\<lparr>eps := initial_epsilon st1, epsilon_satisfied := real_of_int INFINITECOST\<rparr>
                       else st1);
                st3 = (if last_goal_entry \<noteq> goal_entry st2
                       then st2\<lparr>need_to_reinitialize_environment := True\<rparr> else st2)
            in (True, if changed_cells \<noteq> [] then CostsChanged E changed_cells st3 else st3)))"

section \<open>Measures, invariants and a small lattice\<close>

text \<open>
  The cost of an entry path: the sum over consecutive entries of the cost of the action
  that \<^verbatim>\<open>GetPointPathFromEntryPath\<close> picks between them.
\<close>

fun entry_path_cost :: "environment \<Rightarrow> cell list \<Rightarrow> int option" where
  "entry_path_cost E (source # target # rest) =
     (case best_action target (GetSuccs E source) INFINITECOST None of
        (c, None) \<Rightarrow> None
      | (c, Some act) \<Rightarrow> map_option (\<lambda>r. c + r) (entry_path_cost E (target # rest)))"
| "entry_path_cost E path = Some 0"

text \<open>
  The priority-set invariant as the specification states it, for one entry.
\<close>

definition priority_set_invariant :: "planner \<Rightarrow> cell \<Rightarrow> bool" where
  "priority_set_invariant st c =
     ((c \<in> set (open_heap st))
        = (g (entries st c) \<noteq> rhs (entries st c) \<and> closed_iteration (entries st c) \<noteq> iteration st))"

text \<open>
  A small lattice for concrete runs: goal G = (0, 0, 0), A = (1, 0, 0), B = (1, 1, 0), start
  S = (2, 0, 0), with primitives S to A and S to B of cost 1, A to G of cost \<open>ca\<close> and B to G
  of cost \<open>cb\<close>, heuristic 0, and one affected predecessor offset (0, 0, 0). Entries start
  with \<open>g = rhs = INFINITECOST\<close>. \<open>planner_new_goal\<close> is a planner that has just been given
  this start and goal; its \<open>iteration\<close> is 2, so that no fresh entry counts as closed.
  \<open>planner_constructed\<close> has the counters and the flag that \<^verbatim>\<open>initialize\<close> sets, no start
  or goal yet, and \<open>force_scratch_limit = 1\<close>.
\<close>

definition fresh_entry :: entry where
  "fresh_entry = \<lparr>g = INFINITECOST, rhs = INFINITECOST, key = (0, 0), best_next_entry = None,
            visited_iteration = 0, closed_iteration = 0\<rparr>"

definition lattice :: "int \<Rightarrow> int \<Rightarrow> int \<Rightarrow> cell option" where
  "lattice x y th =
     (if 0 \<le> x \<and> x < 400 \<and> 0 \<le> y \<and> y < 400 \<and> 0 \<le> th \<and> th < 16 then Some (x, y, th) else None)"

definition step_pts :: "XYThetaPoint list" where
  "step_pts = [(0, 0, 0), (0.05, 0, 0)]"

definition chain_env :: "int \<Rightarrow> int \<Rightarrow> environment" where
  "chain_env ca cb = \<lparr>GetEnvEntry = lattice,
     GetSuccs = (\<lambda>e. if e = (2, 0, 0) then [((1, 0, 0), 1, step_pts), ((1, 1, 0), 1, step_pts)]
                      else if e = (1, 0, 0) then [((0, 0, 0), ca, step_pts)]
                      else if e = (1, 1, 0) then [((0, 0, 0), cb, step_pts)] else []),
     GetPreds = (\<lambda>e. if e = (0, 0, 0) then [((1, 0, 0), ca), ((1, 1, 0), cb)]
                      else if e = (1, 0, 0) then [((2, 0, 0), 1)]
                      else if e = (1, 1, 0) then [((2, 0, 0), 1)] else []),
     GetHeuristic = (\<lambda>x y. 0),
     GetAffectedPredCells = [(0, 0, 0)],
     ReInitialize = (\<lambda>en c. fresh_entry),
     DISCXY2CONT = (\<lambda>x. real_of_int x * 0.05 + 0.025)\<rparr>"

definition planner_new_goal :: planner where
  "planner_new_goal = \<lparr>entries = (\<lambda>c. fresh_entry), open_heap = [], inconsist = [], eps = 3,
     epsilon_satisfied = real_of_int INFINITECOST, initial_epsilon = 3, iteration = 2,
     environment_iteration = 1, need_to_reinitialize_environment = True,
     start_entry = Some (2, 0, 0), goal_entry = Some (0, 0, 0), first_met_entry = (2, 0, 0),
     goal_entry_list = [], broader_start_and_goal = False, force_scratch_limit = 500,
     map_size = 400, size_dir = 16\<rparr>"


definition planner_unreachable_start :: planner where
  "planner_unreachable_start = planner_new_goal\<lparr>start_entry := Some (5, 5, 0)\<rparr>"


text \<open>
  The existing entries at a list of offsets from a cell, in the order of the list; and the
  members of the planner that the search loops never write (\<open>pass_frame\<close>, within one
  pass; \<open>frame\<close>, over a whole search, where \<open>epsilon_satisfied\<close> may change).
\<close>

definition halo_cells :: "environment \<Rightarrow> cell \<Rightarrow> (int \<times> int \<times> int) list \<Rightarrow> cell list" where
  "halo_cells E gl ds =
     List.map_filter (\<lambda>(i, j, k). GetEnvEntry E (fst gl + i) (fst (snd gl) + j) (snd (snd gl) + k)) ds"

definition pass_frame :: "planner \<Rightarrow> planner \<Rightarrow> bool" where
  "pass_frame st st' =
     (environment_iteration st' = environment_iteration st
      \<and> need_to_reinitialize_environment st' = need_to_reinitialize_environment st
      \<and> initial_epsilon st' = initial_epsilon st
      \<and> goal_entry st' = goal_entry st \<and> start_entry st' = start_entry st
      \<and> broader_start_and_goal st' = broader_start_and_goal st
      \<and> force_scratch_limit st' = force_scratch_limit st
      \<and> map_size st' = map_size st \<and> size_dir st' = size_dir st
      \<and> epsilon_satisfied st' = epsilon_satisfied st)"

definition frame :: "planner \<Rightarrow> planner \<Rightarrow> bool" where
  "frame st st' =
     (environment_iteration st' = environment_iteration st
      \<and> need_to_reinitialize_environment st' = need_to_reinitialize_environment st
      \<and> initial_epsilon st' = initial_epsilon st
      \<and> goal_entry st' = goal_entry st \<and> start_entry st' = start_entry st
      \<and> broader_start_and_goal st' = broader_start_and_goal st
      \<and> force_scratch_limit st' = force_scratch_limit st
      \<and> map_size st' = map_size st \<and> size_dir st' = size_dir st)"

section \<open>The navigation supervisor and the planner worker: data\<close>

text \<open>
  Source: \<^verbatim>\<open>src/service_robot/src/astar_controller.cc\<close>. The enumerations are used by the
  source file under these names; their header is not among the sources.
\<close>

datatype control_state = A_PLANNING | FIX_CONTROLLING | FIX_CLEARING

datatype trigger =
  A_PLANNING_R | LOCATION_RECOVERY_R | BACKWARD_RECOVERY_R | LOCAL_PLANNER_RECOVERY_R
  | GLOBAL_PLANNER_RECOVERY_R | FIX_GETNEWGOAL_R | FIX_OSCILLATION_R

datatype insert_state =
  P_INSERTING_NONE | P_INSERTING_BEGIN | P_INSERTING_END | P_INSERTING_MIDDLE | P_INSERTING_SBPL

datatype status =
  I_GOAL_PLANNING | I_GOAL_HEADING | I_GOAL_REACHED | I_GOAL_UNREACHED | I_GOAL_UNREACHABLE
  | E_PATH_NOT_SAFE | E_GOAL_NOT_SAFE | E_LOCATION_INVALID

type_synonym pose = "real \<times> real \<times> real"

record twist =
  linear_x :: real
  linear_y :: real
  angular_z :: real

datatype path_buffer =
  No_path | Short_sbpl_path "pose list" | Bezier_path "pose list" | Sbpl_path "pose list"
  | Fix_path "pose list"

text \<open>
  What the controller does to the outside is recorded as a trace of events: a published
  status, a published velocity, a wake-up of the planner thread, or a call of one of the
  planners and manoeuvres whose results are inputs of the model.
\<close>

datatype event =
  PublishMovebaseStatus status
  | Vel_pub twist
  | Notify_planner
  | Call_MakeBezierPlan
  | Call_sbpl_makePlan
  | Call_astar_makePlan
  | Call_PublishAStarExtendPose
  | Call_HandleGoingBack
  | Call_EscapeRecovery
  | Call_ClearFootprintInCostmap
  | Call_RotateRecovery
  | Call_HandleSwitchingPath
  | Call_PublishHeadingGoal

text \<open>
  The members of \<^verbatim>\<open>AStarController\<close> and of the shared \<^verbatim>\<open>env_\<close> (\<open>run_flag\<close>, \<open>pause_flag\<close>)
  that the modelled code reads or writes, under the source's names without the trailing
  underscore.
\<close>

record controller =
  state :: control_state
  recovery_trigger :: trigger
  planning_state :: insert_state
  runPlanner :: bool
  gotInitPlan :: bool
  switch_path :: bool
  using_sbpl_directly :: bool
  last_using_bezier :: bool
  replan_directly :: bool
  astar_path :: path_buffer
  cmd_vel_ratio :: real
  front_safe_check_cnt :: int
  astar_planner_timeout_cnt :: int
  try_recovery_times :: int
  local_planner_timeout_cnt :: int
  fix_local_planner_error_cnt :: int
  last_valid_cmd_vel :: twist
  run_flag :: bool
  pause_flag :: bool
  trace :: "event list"

text \<open>
  \<open>emit\<close> appends an event to the trace. \<^verbatim>\<open>PublishZeroVelocity\<close>, lines 281-292.
\<close>

definition emit :: "event \<Rightarrow> controller \<Rightarrow> controller" where
  "emit e st = st\<lparr>trace := trace st @ [e]\<rparr>"

definition zero_twist :: twist where
  "zero_twist = \<lparr>linear_x = 0, linear_y = 0, angular_z = 0\<rparr>"

definition PublishZeroVelocity :: "controller \<Rightarrow> controller" where
  "PublishZeroVelocity st =
     (if \<bar>linear_x (last_valid_cmd_vel st)\<bar> > 0.001
      then (emit (Vel_pub zero_twist) (st\<lparr>cmd_vel_ratio := 1\<rparr>))\<lparr>last_valid_cmd_vel := zero_twist\<rparr>
      else st)"

section \<open>Loops that poll for progress\<close>

text \<open>
  \<^verbatim>\<open>PublishVelWithAcc\<close>, lines 294-308. Each tick gives what \<^verbatim>\<open>CanForward(0.05)\<close> and
  \<^verbatim>\<open>env_->run_flag\<close> read at one test of the loop condition; a tick list that runs out while
  the loop would go on is \<open>None\<close>.
\<close>

fun PublishVelWithAcc_loop ::
  "real \<Rightarrow> (bool \<times> bool) list \<Rightarrow> twist \<Rightarrow> controller \<Rightarrow> controller option" where
  "PublishVelWithAcc_loop vel_acc ticks cmd_vel st =
     (if \<bar>linear_x cmd_vel\<bar> > 0.001 then
        (case ticks of
           [] \<Rightarrow> None
         | (can_forward, run) # rest \<Rightarrow>
             if can_forward \<and> run then
               (let cmd = cmd_vel\<lparr>linear_x :=
                            (if linear_x cmd_vel - vel_acc < 0.05 then 0 else linear_x cmd_vel - vel_acc)\<rparr>
                in PublishVelWithAcc_loop vel_acc rest cmd (emit (Vel_pub cmd) st))
             else Some st)
      else Some st)"


text \<open>
  The wait for a safe goal, lines 1304-1317: each tick gives \<^verbatim>\<open>env_->run_flag\<close> and the result
  of \<^verbatim>\<open>IsGoalSafe\<close>; the list has one tick per iteration the time limit allows. The result is
  \<open>is_goal_safe\<close> and the number of iterations run.
\<close>

fun goal_safe_wait :: "(bool \<times> bool) list \<Rightarrow> nat \<Rightarrow> nat \<Rightarrow> bool \<times> nat" where
  "goal_safe_wait [] check_goal_safe_cnt n = (False, n)"
| "goal_safe_wait ((run, goal_safe) # rest) check_goal_safe_cnt n =
     (if \<not> run then (False, n)
      else if goal_safe then
        (if Suc check_goal_safe_cnt > 5 then (True, Suc n)
         else goal_safe_wait rest (Suc check_goal_safe_cnt) (Suc n))
      else goal_safe_wait rest 0 (Suc n))"

text \<open>
  The wait for a new goal in \<^verbatim>\<open>FIX_GETNEWGOAL_R\<close>, lines 1644-1653: each tick gives
  \<^verbatim>\<open>env_->run_flag\<close> and the result of \<^verbatim>\<open>GetAStarGoal\<close>. The loop condition is the time test
  alone, so the first component is not read.
\<close>

fun new_goal_wait :: "(bool \<times> bool) list \<Rightarrow> nat \<Rightarrow> bool \<times> nat" where
  "new_goal_wait [] n = (False, n)"
| "new_goal_wait ((run, goal_found) # rest) n =
     (if goal_found then (True, Suc n) else new_goal_wait rest (Suc n))"

section \<open>The planner worker\<close>

text \<open>
  \<^verbatim>\<open>PoseStampedDistance\<close>, lines 1101-1103, and \<^verbatim>\<open>MakePlan\<close>, lines 110-252. The results of the
  three planners and of the path checks are inputs (\<open>planner_results\<close>); \<open>None\<close> is a planner
  returning false.
\<close>

definition PoseStampedDistance :: "pose \<Rightarrow> pose \<Rightarrow> real" where
  "PoseStampedDistance p1 p2 =
     sqrt ((fst p1 - fst p2) * (fst p1 - fst p2) + (fst (snd p1) - fst (snd p2)) * (fst (snd p1) - fst (snd p2)))"

record planner_results =
  costmap_ros_null :: bool
  MakeBezierPlan :: "pose list option"
  bezier_path_safe :: bool
  sbpl_makePlan :: "pose list option"
  astar_makePlan :: "pose list option"
  SampleInitialPath :: "pose list \<Rightarrow> pose list"

definition MakePlan ::
  "real \<Rightarrow> planner_results \<Rightarrow> pose \<Rightarrow> pose \<Rightarrow> controller \<Rightarrow> bool \<times> pose list \<times> controller" where
  "MakePlan sbpl_max_distance r start goal st0 =
     (if costmap_ros_null r then (False, [], st0)
      else
       (let st = st0\<lparr>replan_directly := False\<rparr>
        in if PoseStampedDistance start goal \<le> 0.25 then
             (True, [start, goal],
              st\<lparr>using_sbpl_directly := True, last_using_bezier := False,
                 astar_path := Short_sbpl_path [start, goal]\<rparr>)
           else if \<not> last_using_bezier st \<and> PoseStampedDistance start goal \<le> 2.0 then
             (let st1 = emit Call_MakeBezierPlan (st\<lparr>using_sbpl_directly := True, last_using_bezier := True\<rparr>)
              in case MakeBezierPlan r of
                   None \<Rightarrow> (False, [], st1\<lparr>replan_directly := True\<rparr>)
                 | Some bezier_path \<Rightarrow>
                     if bezier_path = [] then (False, [], st1\<lparr>replan_directly := True\<rparr>)
                     else if \<not> bezier_path_safe r
                     then (False, [], st1\<lparr>astar_path := Bezier_path bezier_path, replan_directly := True\<rparr>)
                     else (True, [], st1\<lparr>astar_path := Bezier_path bezier_path\<rparr>))
           else if PoseStampedDistance start goal \<le> sbpl_max_distance then
             (let st1 = emit Call_sbpl_makePlan (st\<lparr>using_sbpl_directly := True, last_using_bezier := False\<rparr>)
              in case sbpl_makePlan r of
                   None \<Rightarrow> (False, [], st1)
                 | Some plan \<Rightarrow>
                     if plan = [] then (False, [], st1\<lparr>astar_path := Sbpl_path plan\<rparr>)
                     else (True, plan, st1\<lparr>astar_path := Sbpl_path plan, gotInitPlan := True\<rparr>))
           else
             (let st1 = emit Call_astar_makePlan (st\<lparr>using_sbpl_directly := False, last_using_bezier := False\<rparr>)
              in case astar_makePlan r of
                   None \<Rightarrow> (False, [], emit Call_PublishAStarExtendPose st1)
                 | Some plan \<Rightarrow>
                     if plan = [] then (False, [], emit Call_PublishAStarExtendPose st1)
                     else (True, plan, st1\<lparr>astar_path := Fix_path (SampleInitialPath r plan)\<rparr>))))"

text \<open>
  \<^verbatim>\<open>PlanThread\<close>, lines 321-541: \<open>plan_attempt\<close> is the call of \<^verbatim>\<open>MakePlan\<close> with the immediate
  second call on \<open>replan_directly\<close> (lines 387-394); \<open>PlanThread_no_plan\<close> is the branch
  taken when no plan was found (lines 491-517), \<open>past_attempt_end\<close> being the time test of
  the planner patience. \<open>consecutive_timeouts n\<close> is n such failures in a row, the
  supervisor starting the worker again in \<open>A_PLANNING\<close> each time.
\<close>

definition plan_attempt ::
  "real \<Rightarrow> planner_results \<Rightarrow> planner_results \<Rightarrow> pose \<Rightarrow> pose \<Rightarrow> controller
     \<Rightarrow> bool \<times> pose list \<times> controller" where
  "plan_attempt sbpl_max_distance r1 r2 start goal st =
     (let a = MakePlan sbpl_max_distance r1 start goal st
      in if replan_directly (snd (snd a))
         then MakePlan sbpl_max_distance r2 start goal ((snd (snd a))\<lparr>replan_directly := False\<rparr>)
         else a)"

definition PlanThread_no_plan :: "bool \<Rightarrow> controller \<Rightarrow> controller" where
  "PlanThread_no_plan past_attempt_end st =
     (if state st = A_PLANNING then
        (if past_attempt_end \<and> runPlanner st then
           (let st1 = PublishZeroVelocity (st\<lparr>runPlanner := False\<rparr>);
                st2 = st1\<lparr>state := FIX_CLEARING, recovery_trigger := GLOBAL_PLANNER_RECOVERY_R,
                          planning_state := P_INSERTING_BEGIN,
                          astar_planner_timeout_cnt := astar_planner_timeout_cnt st1 + 1\<rparr>
            in if \<not> gotInitPlan st2 \<and> astar_planner_timeout_cnt st2 > 4
               then (emit (PublishMovebaseStatus I_GOAL_UNREACHABLE) st2)\<lparr>run_flag := False, pause_flag := False\<rparr>
               else st2)
         else st)
      else if state st = FIX_CONTROLLING then
        st\<lparr>runPlanner := False, front_safe_check_cnt := 0, state := FIX_CONTROLLING\<rparr>
      else st)"

fun consecutive_timeouts :: "nat \<Rightarrow> controller \<Rightarrow> controller" where
  "consecutive_timeouts 0 st = st"
| "consecutive_timeouts (Suc n) st =
     consecutive_timeouts n (PlanThread_no_plan True (st\<lparr>state := A_PLANNING, runPlanner := True\<rparr>))"

section \<open>The supervisor's cycle\<close>

text \<open>
  \<^verbatim>\<open>ExecuteCycle\<close>, front safety check of \<open>FIX_CONTROLLING\<close>, lines 1288-1435.
  \<open>stop_wait_loop\<close> is the wait that starts at line 1359: each tick gives what one iteration reads
  (\<open>run_flag\<close>, the front distance, the time test, the flags set by the worker, the result
  of \<^verbatim>\<open>GetAStarGoal\<close>). \<open>front_safe_check\<close> returns whether the cycle ends before the local
  controller, and the controller.
\<close>

record wait_tick =
  wt_run_flag :: bool
  wt_front_safe_dis :: real
  wt_after_start_plan_time :: bool
  wt_runPlanner :: bool
  wt_switch_path :: bool
  wt_goal_found :: bool


record front_inputs =
  decel_ticks :: "(bool \<times> bool) list"
  wait_ticks :: "wait_tick list"
  going_back :: bool
  switch_path_seen :: bool
  dis_to_path_front :: real
  goal_found :: bool
  stop_to_zero_acc :: real


text \<open>
  The handler of \<open>GLOBAL_PLANNER_RECOVERY_R\<close>, lines 1589-1624, with the counter update of
  \<^verbatim>\<open>RotateRecovery\<close> (line 2430 on).
\<close>

definition RotateRecovery :: "controller \<Rightarrow> controller" where
  "RotateRecovery st =
     emit Call_RotateRecovery
       (if try_recovery_times st > 6
        then st\<lparr>try_recovery_times := try_recovery_times st + 1\<rparr> else st)"

definition global_planner_recovery :: "bool \<Rightarrow> bool \<Rightarrow> controller \<Rightarrow> bool \<times> controller" where
  "global_planner_recovery footprint_cost_negative use_farther_planner st0 =
     (let st = emit Call_HandleGoingBack st0
      in if footprint_cost_negative then
           (True, (emit Call_EscapeRecovery (emit (PublishMovebaseStatus E_PATH_NOT_SAFE) st))
                    \<lparr>state := FIX_CLEARING, recovery_trigger := FIX_GETNEWGOAL_R\<rparr>)
         else if (astar_planner_timeout_cnt st > 12 \<or> try_recovery_times st > 8) \<and> \<not> use_farther_planner then
           (True, (emit (PublishMovebaseStatus I_GOAL_UNREACHABLE) st)\<lparr>run_flag := False, pause_flag := False\<rparr>)
         else
           (let st1 = (if try_recovery_times st > 7 then emit Call_ClearFootprintInCostmap st else st);
                st2 = (if astar_planner_timeout_cnt st1 > 2 then RotateRecovery st1 else st1)
            in (False, st2\<lparr>state := FIX_CLEARING, recovery_trigger := FIX_GETNEWGOAL_R\<rparr>)))"

text \<open>
  The local-controller branch of \<open>FIX_CONTROLLING\<close>, lines 1457-1530, after
  \<^verbatim>\<open>computeVelocityCommands\<close> returned \<open>cmd_vel\<close>.
\<close>

definition local_controller_publish :: "bool \<Rightarrow> twist \<Rightarrow> controller \<Rightarrow> controller" where
  "local_controller_publish past_attempt_end cmd_vel st =
     (if fix_local_planner_error_cnt st < 3 then
        (let c1 = cmd_vel\<lparr>linear_x := linear_x cmd_vel * cmd_vel_ratio st,
                          angular_z := angular_z cmd_vel * cmd_vel_ratio st\<rparr>;
             c2 = (if fix_local_planner_error_cnt st > 0
                   then c1\<lparr>linear_x := linear_x c1 * 0.75, angular_z := angular_z c1 * 0.75\<rparr> else c1);
             c3 = (if \<bar>angular_z c2\<bar> < 0.18 \<and> \<bar>angular_z c2\<bar> > 0.08
                   then c2\<lparr>angular_z := (if angular_z c2 > 0 then 0.18 else - 0.18)\<rparr> else c2)
         in emit (PublishMovebaseStatus I_GOAL_HEADING)
              (emit Call_PublishHeadingGoal ((emit (Vel_pub c3) st)\<lparr>last_valid_cmd_vel := c3\<rparr>)))
      else if past_attempt_end then
        (PublishZeroVelocity (st\<lparr>local_planner_timeout_cnt := local_planner_timeout_cnt st + 1\<rparr>))
          \<lparr>state := FIX_CLEARING, recovery_trigger := BACKWARD_RECOVERY_R\<rparr>
      else PublishZeroVelocity (st\<lparr>state := FIX_CONTROLLING\<rparr>))"

section \<open>Concrete controllers and inputs\<close>

text \<open>
  \<open>new_events st st'\<close> is what a step from \<open>st\<close> to \<open>st'\<close> added to the trace.
  \<open>controller0\<close> is a controller in \<open>FIX_CONTROLLING\<close> at rest; \<open>rearm\<close> is one planning
  timeout of a worker started in \<open>A_PLANNING\<close>; \<open>moving_controller\<close> is a controller whose
  last command moves at 0.5 m/s; the other constants are inputs for concrete cycles.
\<close>

definition new_events :: "controller \<Rightarrow> controller \<Rightarrow> event list" where
  "new_events st st' = drop (length (trace st)) (trace st')"

definition controller0 :: controller where
  "controller0 = \<lparr>state = FIX_CONTROLLING, recovery_trigger = A_PLANNING_R,
     planning_state = P_INSERTING_NONE, runPlanner = False, gotInitPlan = False,
     switch_path = False, using_sbpl_directly = False, last_using_bezier = False,
     replan_directly = False, astar_path = No_path, cmd_vel_ratio = 1,
     front_safe_check_cnt = 0, astar_planner_timeout_cnt = 0, try_recovery_times = 0,
     local_planner_timeout_cnt = 0, fix_local_planner_error_cnt = 0,
     last_valid_cmd_vel = zero_twist, run_flag = True, pause_flag = False, trace = []\<rparr>"

definition rearm :: "controller \<Rightarrow> controller" where
  "rearm st = PlanThread_no_plan True (st\<lparr>state := A_PLANNING, runPlanner := True\<rparr>)"

definition no_results :: planner_results where
  "no_results = \<lparr>costmap_ros_null = False, MakeBezierPlan = None, bezier_path_safe = False,
     sbpl_makePlan = None, astar_makePlan = None, SampleInitialPath = (\<lambda>p. p)\<rparr>"


definition turn_cmd :: twist where
  "turn_cmd = \<lparr>linear_x = 0.5, linear_y = 0, angular_z = 0.1\<rparr>"




section \<open>Fields that the search leaves unchanged\<close>

lemma pass_frame_refl [simp]: "pass_frame st st"
  by (simp add: pass_frame_def)

lemma pass_frame_trans: "pass_frame a b \<Longrightarrow> pass_frame b c \<Longrightarrow> pass_frame a c"
  by (simp add: pass_frame_def)

lemma pass_frame_upd_entry [simp]: "pass_frame st (upd_entry st c f)"
  by (simp add: pass_frame_def upd_entry_def)

lemma pass_frame_COMPUTEKEY [simp]: "pass_frame st (COMPUTEKEY E c st)"
  by (simp add: COMPUTEKEY_def)

lemma pass_frame_heap_push [simp]: "pass_frame st (heap_push c st)"
  by (simp add: pass_frame_def heap_push_def)

lemma pass_frame_heap_erase [simp]: "pass_frame st (heap_erase c st)"
  by (simp add: pass_frame_def heap_erase_def)

lemma pass_frame_UpdateSetMembership [simp]: "pass_frame st (UpdateSetMembership E c st)"
proof -
  have "pass_frame st (heap_push c (COMPUTEKEY E c st))"
    by (rule pass_frame_trans [OF pass_frame_COMPUTEKEY pass_frame_heap_push])
  moreover have "pass_frame st (st\<lparr>inconsist := List.insert c (inconsist st)\<rparr>)"
    by (simp add: pass_frame_def)
  ultimately show ?thesis
    by (simp add: UpdateSetMembership_def Let_def)
qed

lemma pass_frame_RecomputeRHSVal_loop: "pass_frame st (RecomputeRHSVal_loop c ss st)"
proof (induction ss arbitrary: st)
  case Nil
  then show ?case by simp
next
  case (Cons a ss)
  obtain s cost act where a: "a = (s, cost, act)" by (cases a)
  have 1: "pass_frame st (RecomputeRHSVal_loop c ss (upd_entry st c f))" for f
    by (rule pass_frame_trans [OF pass_frame_upd_entry Cons.IH])
  show ?case
    unfolding a by (simp add: 1 Cons.IH)
qed

lemma pass_frame_RecomputeRHSVal [simp]: "pass_frame st (RecomputeRHSVal E c st)"
  by (simp add: RecomputeRHSVal_def pass_frame_RecomputeRHSVal_loop)

lemma pass_frame_visit_pred [simp]: "pass_frame st (visit_pred p st)"
  by (simp add: visit_pred_def)

lemma pass_frame_UnderConsist_loop: "pass_frame st (UpdateStateOfUnderConsist_loop E c ps st)"
proof (induction ps arbitrary: st)
  case Nil
  then show ?case by simp
next
  case (Cons a ps)
  obtain p cost where a: "a = (p, cost)" by (cases a)
  have 0: "pass_frame st (RecomputeRHSVal E p (visit_pred p st))"
    by (rule pass_frame_trans [OF pass_frame_visit_pred pass_frame_RecomputeRHSVal])
  have 1: "pass_frame st (UpdateSetMembership E p (RecomputeRHSVal E p (visit_pred p st)))"
    by (rule pass_frame_trans [OF 0 pass_frame_UpdateSetMembership])
  have 2: "pass_frame st (UpdateStateOfUnderConsist_loop E c ps
              (UpdateSetMembership E p (RecomputeRHSVal E p (visit_pred p st))))"
    by (rule pass_frame_trans [OF 1 Cons.IH])
  have 3: "pass_frame st (UpdateStateOfUnderConsist_loop E c ps (visit_pred p st))"
    by (rule pass_frame_trans [OF pass_frame_visit_pred Cons.IH])
  show ?case
    unfolding a by (simp add: Let_def 2 3)
qed

lemma pass_frame_OverConsist_loop: "pass_frame st (UpdateStateOfOverConsist_loop E c ps st)"
proof (induction ps arbitrary: st)
  case Nil
  then show ?case by simp
next
  case (Cons a ps)
  obtain p cost where a: "a = (p, cost)" by (cases a)
  have 0: "pass_frame st (upd_entry (visit_pred p st) p f)" for f
    by (rule pass_frame_trans [OF pass_frame_visit_pred pass_frame_upd_entry])
  have 1: "pass_frame st (UpdateSetMembership E p (upd_entry (visit_pred p st) p f))" for f
    by (rule pass_frame_trans [OF 0 pass_frame_UpdateSetMembership])
  have 2: "pass_frame st (UpdateStateOfOverConsist_loop E c ps
              (UpdateSetMembership E p (upd_entry (visit_pred p st) p f)))" for f
    by (rule pass_frame_trans [OF 1 Cons.IH])
  have 3: "pass_frame st (UpdateStateOfOverConsist_loop E c ps (visit_pred p st))"
    by (rule pass_frame_trans [OF pass_frame_visit_pred Cons.IH])
  show ?case
    unfolding a by (simp add: Let_def 2 3)
qed

lemma pass_frame_expand_entry [simp]: "pass_frame st (expand_entry E m st)"
proof -
  have 0: "pass_frame st (upd_entry (heap_erase m st) m f)" for f
    by (rule pass_frame_trans [OF pass_frame_heap_erase pass_frame_upd_entry])
  have 1: "pass_frame st (UpdateStateOfOverConsist E m (upd_entry (heap_erase m st) m f))" for f
    unfolding UpdateStateOfOverConsist_def
    by (rule pass_frame_trans [OF 0 pass_frame_OverConsist_loop])
  have 2: "pass_frame st (UpdateSetMembership E m (upd_entry (heap_erase m st) m f))" for f
    by (rule pass_frame_trans [OF 0 pass_frame_UpdateSetMembership])
  have 3: "pass_frame st (UpdateStateOfUnderConsist E m (UpdateSetMembership E m (upd_entry (heap_erase m st) m f)))" for f
    unfolding UpdateStateOfUnderConsist_def
    by (rule pass_frame_trans [OF 2 pass_frame_UnderConsist_loop])
  show ?thesis
    by (simp add: expand_entry_def Let_def 1 3)
qed

lemma pass_frame_search_over: "pass_frame st (snd (search_over E m ss st))"
proof (induction ss arbitrary: st)
  case Nil
  then show ?case by simp
next
  case (Cons s ss)
  have 1: "pass_frame st (COMPUTEKEY E s (COMPUTEKEY E m st))"
    by (rule pass_frame_trans [OF pass_frame_COMPUTEKEY pass_frame_COMPUTEKEY])
  have 2: "pass_frame st ((COMPUTEKEY E s (COMPUTEKEY E m st))\<lparr>first_met_entry := s\<rparr>)"
    using 1 by (simp add: pass_frame_def)
  have 3: "pass_frame st (snd (search_over E m ss (COMPUTEKEY E s (COMPUTEKEY E m st))))"
    by (rule pass_frame_trans [OF 1 Cons.IH])
  show ?case
    by (simp add: Let_def 2 3)
qed

lemma pass_frame_ComputeOrImprovePath_loop: "pass_frame st (ComputeOrImprovePath_loop E sl b st)"
proof (induction b arbitrary: st)
  case 0
  then show ?case by simp
next
  case (Suc b)
  show ?case
  proof (cases "heap_top st")
    case None
    then show ?thesis by simp
  next
    case (Some m)
    have 1: "pass_frame st (expand_entry E m (snd (search_over E m sl st)))"
      by (rule pass_frame_trans [OF pass_frame_search_over pass_frame_expand_entry])
    have 2: "pass_frame st (ComputeOrImprovePath_loop E sl b (expand_entry E m (snd (search_over E m sl st))))"
      by (rule pass_frame_trans [OF 1 Suc.IH])
    show ?thesis
      using Some by (simp add: Let_def pass_frame_search_over 2)
  qed
qed

lemma pass_frame_ComputeOrImprovePath: "pass_frame st (snd (ComputeOrImprovePath E b st))"
proof -
  have 0: "pass_frame st (st\<lparr>first_met_entry := the (start_entry st)\<rparr>)"
    by (simp add: pass_frame_def)
  have 1: "pass_frame st (ComputeOrImprovePath_loop E sl b (st\<lparr>first_met_entry := the (start_entry st)\<rparr>))" for sl
    by (rule pass_frame_trans [OF 0 pass_frame_ComputeOrImprovePath_loop])
  have 2: "pass_frame st (COMPUTEKEY E c (ComputeOrImprovePath_loop E sl b (st\<lparr>first_met_entry := the (start_entry st)\<rparr>)))" for sl c
    by (rule pass_frame_trans [OF 1 pass_frame_COMPUTEKEY])
  show ?thesis
    by (simp add: ComputeOrImprovePath_def Let_def 1 2 split: option.splits)
qed

lemma pass_frame_fold: "(\<And>x s. pass_frame s (f x s)) \<Longrightarrow> pass_frame st (fold f xs st)"
proof (induction xs arbitrary: st)
  case Nil
  then show ?case by simp
next
  case (Cons x xs)
  have "pass_frame st (fold f xs (f x st))"
    by (rule pass_frame_trans [OF Cons.prems Cons.IH [OF Cons.prems]])
  then show ?case by simp
qed

lemma pass_frame_begin_pass: "pass_frame st (begin_pass E st)"
proof -
  have a: "pass_frame st (st\<lparr>eps := e, iteration := n\<rparr>)" for e n
    by (simp add: pass_frame_def)
  have b: "pass_frame s (fold heap_push xs s)" for s xs
    by (rule pass_frame_fold) simp
  have c: "pass_frame s (s\<lparr>inconsist := []\<rparr>)" for s
    by (simp add: pass_frame_def)
  have d: "pass_frame s (fold (COMPUTEKEY E) xs s)" for s xs
    by (rule pass_frame_fold) simp
  have e: "pass_frame s (fold (COMPUTEKEY E) xs ((fold heap_push ys s)\<lparr>inconsist := []\<rparr>))" for s xs ys
    by (rule pass_frame_trans [OF pass_frame_trans [OF b c] d])
  have f: "pass_frame st (fold (COMPUTEKEY E) xs ((fold heap_push ys (st\<lparr>eps := e1, iteration := n\<rparr>))\<lparr>inconsist := []\<rparr>))" for xs ys e1 n
    by (rule pass_frame_trans [OF a e])
  show ?thesis
    unfolding begin_pass_def Let_def
    by (simp add: e f)
qed

lemma frame_refl [simp]: "frame st st"
  by (simp add: frame_def)

lemma frame_trans: "frame a b \<Longrightarrow> frame b c \<Longrightarrow> frame a c"
  by (simp add: frame_def)

lemma frame_of_pass: "pass_frame a b \<Longrightarrow> frame a b"
  by (simp add: frame_def pass_frame_def)

lemma frame_UpdateSetMembership [simp]: "frame st (UpdateSetMembership E c st)"
  by (rule frame_of_pass) simp

lemma frame_RecomputeRHSVal [simp]: "frame st (RecomputeRHSVal E c st)"
  by (rule frame_of_pass) simp



lemma frame_fold: "(\<And>x s. frame s (f x s)) \<Longrightarrow> frame st (fold f xs st)"
proof (induction xs arbitrary: st)
  case Nil
  then show ?case by simp
next
  case (Cons x xs)
  have "frame st (fold f xs (f x st))"
    by (rule frame_trans [OF Cons.prems Cons.IH [OF Cons.prems]])
  then show ?case by simp
qed


section \<open>Reinitialization and the test on cost changes\<close>

lemma upd_entry_fields [simp]:
  "open_heap (upd_entry st c f) = open_heap st" "inconsist (upd_entry st c f) = inconsist st"
  "eps (upd_entry st c f) = eps st" "epsilon_satisfied (upd_entry st c f) = epsilon_satisfied st"
  "iteration (upd_entry st c f) = iteration st" "first_met_entry (upd_entry st c f) = first_met_entry st"
  "goal_entry_list (upd_entry st c f) = goal_entry_list st"
  "environment_iteration (upd_entry st c f) = environment_iteration st"
  "goal_entry (upd_entry st c f) = goal_entry st"
  "entries (upd_entry st c f) = (entries st)(c := f (entries st c))"
  by (simp_all add: upd_entry_def)

lemma COMPUTEKEY_fields [simp]:
  "open_heap (COMPUTEKEY E c st) = open_heap st" "inconsist (COMPUTEKEY E c st) = inconsist st"
  "eps (COMPUTEKEY E c st) = eps st" "epsilon_satisfied (COMPUTEKEY E c st) = epsilon_satisfied st"
  "iteration (COMPUTEKEY E c st) = iteration st" "first_met_entry (COMPUTEKEY E c st) = first_met_entry st"
  "goal_entry_list (COMPUTEKEY E c st) = goal_entry_list st"
  "environment_iteration (COMPUTEKEY E c st) = environment_iteration st"
  "goal_entry (COMPUTEKEY E c st) = goal_entry st"
  "rhs (entries (COMPUTEKEY E c st) x) = rhs (entries st x)"
  "g (entries (COMPUTEKEY E c st) x) = g (entries st x)"
  "closed_iteration (entries (COMPUTEKEY E c st) x) = closed_iteration (entries st x)"
  by (simp_all add: COMPUTEKEY_def)

lemma heap_push_fields [simp]:
  "open_heap (heap_push c st) = open_heap st @ [c]" "inconsist (heap_push c st) = inconsist st"
  "eps (heap_push c st) = eps st" "epsilon_satisfied (heap_push c st) = epsilon_satisfied st"
  "iteration (heap_push c st) = iteration st" "first_met_entry (heap_push c st) = first_met_entry st"
  "goal_entry_list (heap_push c st) = goal_entry_list st"
  "environment_iteration (heap_push c st) = environment_iteration st"
  "goal_entry (heap_push c st) = goal_entry st"
  "entries (heap_push c st) = entries st"
  by (simp_all add: heap_push_def)

lemma halo_cells_Cons:
  "halo_cells E gl ((i, j, k) # ds) =
     (case GetEnvEntry E (fst gl + i) (fst (snd gl) + j) (snd (snd gl) + k) of
        None \<Rightarrow> halo_cells E gl ds | Some c \<Rightarrow> c # halo_cells E gl ds)"
  by (simp add: halo_cells_def List.map_filter_simps split: option.splits)

lemma seed_goal_entries_effect:
  "open_heap (seed_goal_entries E gl ds st) = open_heap st @ halo_cells E gl ds
   \<and> inconsist (seed_goal_entries E gl ds st) = inconsist st
   \<and> eps (seed_goal_entries E gl ds st) = eps st
   \<and> epsilon_satisfied (seed_goal_entries E gl ds st) = epsilon_satisfied st
   \<and> environment_iteration (seed_goal_entries E gl ds st) = environment_iteration st
   \<and> goal_entry (seed_goal_entries E gl ds st) = goal_entry st
   \<and> (\<forall>c. rhs (entries (seed_goal_entries E gl ds st) c)
            = (if c \<in> set (halo_cells E gl ds) then 0 else rhs (entries st c)))"
proof (induction ds arbitrary: st)
  case Nil
  then show ?case by (simp add: halo_cells_def List.map_filter_simps)
next
  case (Cons d ds)
  obtain i j k where d: "d = (i, j, k)" by (cases d)
  show ?case
  proof (cases "GetEnvEntry E (fst gl + i) (fst (snd gl) + j) (snd (snd gl) + k)")
    case None
    then show ?thesis
      unfolding d using Cons.IH [of st] by (simp add: halo_cells_Cons)
  next
    case (Some c)
    define st3 where "st3 =
        (let st1 = st\<lparr>goal_entry_list := goal_entry_list st @ [c]\<rparr>;
             st2 = upd_entry st1 c (\<lambda>e. e\<lparr>rhs := 0, visited_iteration := environment_iteration st1\<rparr>);
             st3 = (if i \<noteq> 0 \<or> j \<noteq> 0
                      then upd_entry st2 c (\<lambda>e. e\<lparr>best_next_entry := goal_entry st2\<rparr>) else st2)
         in heap_push c (COMPUTEKEY E c st3))"
    have unf: "seed_goal_entries E gl (d # ds) st = seed_goal_entries E gl ds st3"
      unfolding d st3_def using Some by (simp add: Let_def)
    have f: "open_heap st3 = open_heap st @ [c]" "inconsist st3 = inconsist st" "eps st3 = eps st"
      "epsilon_satisfied st3 = epsilon_satisfied st" "environment_iteration st3 = environment_iteration st"
      "goal_entry st3 = goal_entry st"
      "\<And>x. rhs (entries st3 x) = (if x = c then 0 else rhs (entries st x))"
      unfolding st3_def by (simp_all add: Let_def upd_entry_def)
    show ?thesis
      unfolding unf using Cons.IH [of st3] Some f
      by (simp add: halo_cells_Cons d)
  qed
qed

lemma ReInitialize_effect:
  "inconsist (ReInitializeSearchEnvironment E st) = []
   \<and> eps (ReInitializeSearchEnvironment E st) = initial_epsilon st
   \<and> epsilon_satisfied (ReInitializeSearchEnvironment E st) = real_of_int INFINITECOST
   \<and> environment_iteration (ReInitializeSearchEnvironment E st) = Suc (environment_iteration st)
   \<and> \<not> need_to_reinitialize_environment (ReInitializeSearchEnvironment E st)
   \<and> goal_entry (ReInitializeSearchEnvironment E st) = goal_entry st
   \<and> open_heap (ReInitializeSearchEnvironment E st)
       = (if broader_start_and_goal st then halo_cells E (the (goal_entry st)) halo_offsets
          else [the (goal_entry st)])
   \<and> (\<forall>c \<in> set (open_heap (ReInitializeSearchEnvironment E st)).
         rhs (entries (ReInitializeSearchEnvironment E st) c) = 0)"
proof (cases "broader_start_and_goal st")
  case True
  define st1 where "st1 = st\<lparr>entries := ReInitialize E (entries st), open_heap := [], inconsist := [],
                   eps := initial_epsilon st, epsilon_satisfied := real_of_int INFINITECOST,
                   environment_iteration := Suc (environment_iteration st), goal_entry_list := []\<rparr>"
  have unf: "ReInitializeSearchEnvironment E st =
      (seed_goal_entries E (the (goal_entry st)) halo_offsets st1)\<lparr>need_to_reinitialize_environment := False\<rparr>"
    using True by (simp add: ReInitializeSearchEnvironment_def Let_def st1_def)
  have b: "open_heap st1 = []" "inconsist st1 = []" "eps st1 = initial_epsilon st"
    "epsilon_satisfied st1 = real_of_int INFINITECOST"
    "environment_iteration st1 = Suc (environment_iteration st)" "goal_entry st1 = goal_entry st"
    by (simp_all add: st1_def)
  note e = seed_goal_entries_effect [of E "the (goal_entry st)" halo_offsets st1]
  show ?thesis
    unfolding unf using e b True by auto
next
  case False
  then show ?thesis
    by (simp add: ReInitializeSearchEnvironment_def Let_def)
qed

lemma collect_affected_cong:
  "map_size a = map_size b \<Longrightarrow> size_dir a = size_dir b \<Longrightarrow>
     collect_affected E a cell offs acc = collect_affected E b cell offs acc"
proof (induction offs arbitrary: acc)
  case Nil
  then show ?case by (cases acc) simp
next
  case (Cons off offs)
  obtain ax ay ath where off: "off = (ax, ay, ath)" by (cases off)
  obtain exist affected where acc: "acc = (exist, affected)" by (cases acc)
  show ?case
    unfolding off acc using Cons.prems Cons.IH [OF Cons.prems]
    by (simp add: Let_def split: option.splits)
qed

lemma affected_entries_cong:
  "map_size a = map_size b \<Longrightarrow> size_dir a = size_dir b \<Longrightarrow>
     affected_entries E a cc = affected_entries E b cc"
  by (simp add: affected_entries_def collect_affected_cong [of a b])

lemma size_gt_zero [simp]: "\<not> size_gt 0 v"
  by (simp add: size_gt_def)

lemma CostsChanged_need:
  "need_to_reinitialize_environment (CostsChanged E cc st) =
     (need_to_reinitialize_environment st
      \<or> (iteration st \<noteq> 0
         \<and> (size_gt (length (affected_entries E st cc)) (map_size st * map_size st * size_dir st sdiv 10)
            \<or> size_gt (length (affected_entries E st cc)) (force_scratch_limit st))))"
proof -
  define f where "f = (\<lambda>c s. if visited_iteration (entries s c) = environment_iteration s
                                       then UpdateSetMembership E c (RecomputeRHSVal E c s) else s)"
  have ff: "frame s (f x s)" for x s
    unfolding f_def using frame_trans [OF frame_RecomputeRHSVal frame_UpdateSetMembership] by simp
  have fr: "need_to_reinitialize_environment (fold f xs s) = need_to_reinitialize_environment s" for xs s
    using frame_fold [of f s xs, OF ff] by (simp add: frame_def)
  show ?thesis
    unfolding CostsChanged_def Let_def f_def [symmetric]
    by (cases "affected_entries E st cc = []") (auto simp add: fr)
qed

lemma CostsChanged_goal_entry:
  "goal_entry (CostsChanged E cc st) = goal_entry st"
proof -
  define f where "f = (\<lambda>c s. if visited_iteration (entries s c) = environment_iteration s
                                       then UpdateSetMembership E c (RecomputeRHSVal E c s) else s)"
  have ff: "frame s (f x s)" for x s
    unfolding f_def using frame_trans [OF frame_RecomputeRHSVal frame_UpdateSetMembership] by simp
  have fr: "goal_entry (fold f xs s) = goal_entry s" for xs s
    using frame_fold [of f s xs, OF ff] by (simp add: frame_def)
  show ?thesis
    unfolding CostsChanged_def Let_def f_def [symmetric]
    by (simp add: fr)
qed

lemma makePlan_update_early_return:
  "new_start = None \<or> new_goal = None \<Longrightarrow>
     makePlan_update E new_goal new_start cc st
       = (False, st\<lparr>goal_entry := new_goal, start_entry := new_start\<rparr>)"
  by (simp add: makePlan_update_def Let_def)

lemma makePlan_update_need:
  assumes "makePlan_update E (Some gl) (Some s) cc st = (ok, stu)"
  shows "ok"
    and "goal_entry stu = Some gl"
    and "need_to_reinitialize_environment stu =
     (need_to_reinitialize_environment st \<or> goal_entry st \<noteq> Some gl
      \<or> (iteration st \<noteq> 0
         \<and> (size_gt (length (affected_entries E st cc)) (map_size st * map_size st * size_dir st sdiv 10)
            \<or> size_gt (length (affected_entries E st cc)) (force_scratch_limit st))))"
proof -
  define st3 where "st3 =
     (let st1 = st\<lparr>goal_entry := Some gl, start_entry := Some s\<rparr>;
          st2 = (if start_entry st \<noteq> Some s
                 then st1\<lparr>eps := initial_epsilon st1, epsilon_satisfied := real_of_int INFINITECOST\<rparr>
                 else st1)
      in (if goal_entry st \<noteq> Some gl then st2\<lparr>need_to_reinitialize_environment := True\<rparr> else st2))"
  have p: "need_to_reinitialize_environment st3 = (need_to_reinitialize_environment st \<or> goal_entry st \<noteq> Some gl)"
    "iteration st3 = iteration st" "map_size st3 = map_size st" "size_dir st3 = size_dir st"
    "force_scratch_limit st3 = force_scratch_limit st"
    unfolding st3_def by (simp_all add: Let_def)
  have ae: "affected_entries E st3 cc = affected_entries E st cc"
    by (rule affected_entries_cong) (simp_all add: p)
  have e: "(ok, stu) = (True, if cc \<noteq> [] then CostsChanged E cc st3 else st3)"
    using assms unfolding makePlan_update_def st3_def Let_def by (auto split: if_splits)
  have z: "cc = [] \<Longrightarrow> affected_entries E st cc = []"
    by (simp add: affected_entries_def)
  show "ok"
    using e by simp
  have gl: "goal_entry st3 = Some gl"
    unfolding st3_def by (simp add: Let_def)
  show "goal_entry stu = Some gl"
    using e gl by (simp add: CostsChanged_goal_entry)
  have u: "stu = (if cc \<noteq> [] then CostsChanged E cc st3 else st3)"
    using e by simp
  show "need_to_reinitialize_environment stu =
     (need_to_reinitialize_environment st \<or> goal_entry st \<noteq> Some gl
      \<or> (iteration st \<noteq> 0
         \<and> (size_gt (length (affected_entries E st cc)) (map_size st * map_size st * size_dir st sdiv 10)
            \<or> size_gt (length (affected_entries E st cc)) (force_scratch_limit st))))"
    unfolding u using CostsChanged_need [of E cc st3] p ae z by auto
qed



text \<open>
  The return of lines 666-667 is not part of claim C4 as amended. What the code does
  there: a call with a new goal and no start entry stores the new goal and returns; the
  next call for that goal finds the stored goal unchanged, so the flag stays as it was.
\<close>

lemma makePlan_update_after_early_return:
  assumes "makePlan_update E (Some gl) None cc st = (ok1, st1)"
    and "makePlan_update E (Some gl) (Some s) [] st1 = (ok2, st2)"
  shows "\<not> ok1" and "ok2"
    and "need_to_reinitialize_environment st2 = need_to_reinitialize_environment st"
proof -
  have e: "ok1 = False" "st1 = st\<lparr>goal_entry := Some gl, start_entry := None\<rparr>"
    using assms(1) makePlan_update_early_return [of None "Some gl" E cc st] by simp_all
  show "\<not> ok1" using e by simp
  show "ok2" by (rule makePlan_update_need(1) [OF assms(2)])
  show "need_to_reinitialize_environment st2 = need_to_reinitialize_environment st"
    unfolding makePlan_update_need(3) [OF assms(2)] e by (simp add: affected_entries_def)
qed


section \<open>Failure of the search\<close>

lemma heap_top_None: "(heap_top st = None) = (open_heap st = [])"
  by (simp add: heap_top_def split: list.splits)

lemma ComputeOrImprovePath_no_solution:
  assumes "rhs (entries (snd (ComputeOrImprovePath E b st))
                  (first_met_entry (snd (ComputeOrImprovePath E b st)))) = INFINITECOST"
  shows "\<not> fst (ComputeOrImprovePath E b st)"
proof -
  define st1 where "st1 = ComputeOrImprovePath_loop E (start_entry_list E st) b (st\<lparr>first_met_entry := the (start_entry st)\<rparr>)"
  show ?thesis
  proof (cases "heap_top st1")
    case None
    then have "open_heap st1 = []" by (simp add: heap_top_None)
    with assms None show ?thesis
      unfolding ComputeOrImprovePath_def Let_def st1_def [symmetric]
      by (simp split: if_splits)
  next
    case (Some m)
    then have "open_heap st1 \<noteq> []" using heap_top_None [of st1] by auto
    with assms Some show ?thesis
      unfolding ComputeOrImprovePath_def Let_def st1_def [symmetric]
      by (simp split: if_splits)
  qed
qed

lemma pass_keeps_epsilon_satisfied:
  "epsilon_satisfied (snd (ComputeOrImprovePath E b (begin_pass E st))) = epsilon_satisfied st"
proof -
  have "pass_frame st (snd (ComputeOrImprovePath E b (begin_pass E st)))"
    by (rule pass_frame_trans [OF pass_frame_begin_pass pass_frame_ComputeOrImprovePath])
  then show ?thesis
    by (simp add: pass_frame_def)
qed

lemma search_result:
  assumes "search E clock fuel st pts = Some (ok, pts', st')"
  shows "\<not> ok \<longrightarrow> pts' = pts"
    and "ok = (rhs (entries st' (first_met_entry st')) \<noteq> INFINITECOST
               \<and> epsilon_satisfied st' \<noteq> real_of_int INFINITECOST)"
  using assms unfolding search_def Let_def
  by (auto split: if_splits option.splits)

lemma search_heap_emptied:
  assumes "\<not> need_to_reinitialize_environment st" "epsilon_satisfied st > 1"
    and "rhs (entries (snd (ComputeOrImprovePath E b (begin_pass E st)))
               (first_met_entry (snd (ComputeOrImprovePath E b (begin_pass E st))))) = INFINITECOST"
  shows "search E (b # bs) fuel st pts
           = Some (False, pts, snd (ComputeOrImprovePath E b (begin_pass E st)))"
proof -
  define r where "r = ComputeOrImprovePath E b (begin_pass E st)"
  have f: "\<not> fst r"
    unfolding r_def using assms(3) by (rule ComputeOrImprovePath_no_solution)
  have l: "search_loop E (b # bs) st = snd r"
    using assms f by (simp add: Let_def r_def [symmetric])
  show ?thesis
    using assms(1,3) l unfolding search_def Let_def r_def [symmetric] by simp
qed

lemma search_budget_elapsed_in_pass:
  assumes "\<not> need_to_reinitialize_environment st"
    and "epsilon_satisfied st = real_of_int INFINITECOST"
    and "\<not> fst (ComputeOrImprovePath E b (begin_pass E st))"
  shows "search E [b] fuel st pts
           = Some (False, pts, snd (ComputeOrImprovePath E b (begin_pass E st)))"
proof -
  define r where "r = ComputeOrImprovePath E b (begin_pass E st)"
  have e: "epsilon_satisfied (snd r) = real_of_int INFINITECOST"
    unfolding r_def using assms(2) by (simp add: pass_keeps_epsilon_satisfied)
  have g: "epsilon_satisfied st > 1"
    using assms(2) by (simp add: INFINITECOST_def)
  have l: "search_loop E [b] st = snd r"
    using assms(3) g by (simp add: Let_def r_def [symmetric])
  show ?thesis
    using assms(1) l e unfolding search_def Let_def r_def [symmetric] by simp
qed

lemma search_budget_elapsed_at_entry:
  assumes "need_to_reinitialize_environment st \<or> epsilon_satisfied st = real_of_int INFINITECOST"
  shows "search E [] fuel st pts
           = Some (False, pts, if need_to_reinitialize_environment st
                               then ReInitializeSearchEnvironment E st else st)"
  using assms ReInitialize_effect [of E st] by (auto simp add: search_def Let_def)

text \<open>
  Claim C2. \<open>search\<close> reports failure exactly when the first-met start entry has
  \<open>rhs = INFINITECOST\<close> or no pass has completed (\<open>epsilon_satisfied\<close> is still
  \<open>INFINITECOST\<close>), and on failure the point path handed in by the caller comes back
  unchanged: \<open>makePlan\<close> hands in an empty vector, so no point reaches the controller.
  \<open>ComputeOrImprovePath\<close> never reports a solution while the first-met start entry has
  \<open>rhs = INFINITECOST\<close>; a pass that ends with the heap empty and that entry at
  \<open>INFINITECOST\<close> makes \<open>search\<close> fail at once, whatever budget remains; a first pass
  cut short by the clock before any solution, and a budget already spent on entry, make it
  fail as well.
\<close>

theorem search_failure_delivers_no_path:
  "(search E clock fuel st pts = Some (ok, pts', st') \<longrightarrow>
      (\<not> ok \<longrightarrow> pts' = pts)
      \<and> ok = (rhs (entries st' (first_met_entry st')) \<noteq> INFINITECOST
               \<and> epsilon_satisfied st' \<noteq> real_of_int INFINITECOST))
   \<and> (rhs (entries (snd (ComputeOrImprovePath E b st))
                (first_met_entry (snd (ComputeOrImprovePath E b st)))) = INFINITECOST
        \<longrightarrow> \<not> fst (ComputeOrImprovePath E b st))
   \<and> (\<not> need_to_reinitialize_environment st \<and> epsilon_satisfied st > 1
        \<and> open_heap (snd (ComputeOrImprovePath E b (begin_pass E st))) = []
        \<and> rhs (entries (snd (ComputeOrImprovePath E b (begin_pass E st)))
                 (first_met_entry (snd (ComputeOrImprovePath E b (begin_pass E st))))) = INFINITECOST
        \<longrightarrow> search E (b # bs) fuel st pts
              = Some (False, pts, snd (ComputeOrImprovePath E b (begin_pass E st))))
   \<and> (\<not> need_to_reinitialize_environment st \<and> epsilon_satisfied st = real_of_int INFINITECOST
        \<and> \<not> fst (ComputeOrImprovePath E b (begin_pass E st))
        \<longrightarrow> search E [b] fuel st pts
              = Some (False, pts, snd (ComputeOrImprovePath E b (begin_pass E st))))
   \<and> (need_to_reinitialize_environment st \<or> epsilon_satisfied st = real_of_int INFINITECOST
        \<longrightarrow> search E [] fuel st pts
              = Some (False, pts, if need_to_reinitialize_environment st
                                  then ReInitializeSearchEnvironment E st else st))"
proof (intro conjI impI)
  assume a: "search E clock fuel st pts = Some (ok, pts', st')"
  { assume "\<not> ok"
    with search_result(1) [OF a] show "pts' = pts" by simp }
  show "ok = (rhs (entries st' (first_met_entry st')) \<noteq> INFINITECOST
               \<and> epsilon_satisfied st' \<noteq> real_of_int INFINITECOST)"
    by (rule search_result(2) [OF a])
next
  assume "rhs (entries (snd (ComputeOrImprovePath E b st))
                (first_met_entry (snd (ComputeOrImprovePath E b st)))) = INFINITECOST"
  then show "\<not> fst (ComputeOrImprovePath E b st)"
    by (rule ComputeOrImprovePath_no_solution)
next
  assume "\<not> need_to_reinitialize_environment st \<and> epsilon_satisfied st > 1
        \<and> open_heap (snd (ComputeOrImprovePath E b (begin_pass E st))) = []
        \<and> rhs (entries (snd (ComputeOrImprovePath E b (begin_pass E st)))
                 (first_met_entry (snd (ComputeOrImprovePath E b (begin_pass E st))))) = INFINITECOST"
  then show "search E (b # bs) fuel st pts
              = Some (False, pts, snd (ComputeOrImprovePath E b (begin_pass E st)))"
    using search_heap_emptied [of st E b bs fuel pts] by simp
next
  assume "\<not> need_to_reinitialize_environment st \<and> epsilon_satisfied st = real_of_int INFINITECOST
        \<and> \<not> fst (ComputeOrImprovePath E b (begin_pass E st))"
  then show "search E [b] fuel st pts
              = Some (False, pts, snd (ComputeOrImprovePath E b (begin_pass E st)))"
    using search_budget_elapsed_in_pass [of st E b fuel pts] by simp
next
  assume "need_to_reinitialize_environment st \<or> epsilon_satisfied st = real_of_int INFINITECOST"
  then show "search E [] fuel st pts
              = Some (False, pts, if need_to_reinitialize_environment st
                                  then ReInitializeSearchEnvironment E st else st)"
    by (rule search_budget_elapsed_at_entry)
qed

section \<open>Seeding around the goal and the reinitialization trigger\<close>





text \<open>
  Claim C2 at a concrete input: the start cell (5, 5, 0) has no primitive leading to the
  goal, the heap empties, and the search fails with the empty point path.
\<close>

theorem search_failure_delivers_no_path_witness:
  "\<exists>st'. search (chain_env 1 3) [10] 10 planner_unreachable_start [] = Some (False, [], st')"
proof -
  have r: "case search (chain_env 1 3) [10] 10 planner_unreachable_start [] of
             None \<Rightarrow> False | Some (ok, p, s) \<Rightarrow> \<not> ok"
    by code_simp
  then obtain ok p s where e: "search (chain_env 1 3) [10] 10 planner_unreachable_start [] = Some (ok, p, s)"
    and n: "\<not> ok"
    by (auto split: option.splits)
  have "p = []"
    using search_failure_delivers_no_path
            [where E = "chain_env 1 3" and clock = "[10]" and fuel = 10
               and st = planner_unreachable_start and pts = "[]" and ok = ok and pts' = p and st' = s]
          e n
    by simp
  with e n show ?thesis by simp
qed



section \<open>Concrete runs of the planner\<close>


text \<open>
  Claim C1 fails on the code. \<open>RecomputeRHSVal\<close> only ever lowers \<open>rhs\<close>: it takes the
  minimum of the old value and the successors, so a cost increase is not propagated.
  A first search over costs S\<rightarrow>A 1, A\<rightarrow>G 1, S\<rightarrow>B 1, B\<rightarrow>G 3 succeeds; the cost of
  A\<rightarrow>G then becomes 100 with cell (1, 0) reported as changed. The second search succeeds
  with \<open>epsilon_satisfied = 1\<close> and follows \<open>best_next_entry\<close> along S, A, G, which costs
  101, while S, B, G costs 4.
\<close>

theorem stale_path_after_cost_increase:
  "(case search (chain_env 1 3) [10, 10, 10] 10 planner_new_goal [] of
      None \<Rightarrow> False
    | Some (ok1, pts1, st1) \<Rightarrow>
       ok1 \<and>
       (case makePlan_update (chain_env 100 3) (Some (0, 0, 0)) (Some (2, 0, 0)) [(1, 0)] st1 of
          (reached, st2) \<Rightarrow>
            reached \<and>
            (case search (chain_env 100 3) [10, 10, 10] 10 st2 [] of
               None \<Rightarrow> False
             | Some (ok2, pts2, st3) \<Rightarrow>
                 ok2 \<and> epsilon_satisfied st3 = 1
                 \<and> first_met_entry st3 = (2, 0, 0)
                 \<and> GetEntryPath 10 st3 = Some [(2, 0, 0), (1, 0, 0), (0, 0, 0)]
                 \<and> entry_path_cost (chain_env 100 3) [(2, 0, 0), (1, 0, 0), (0, 0, 0)] = Some 101
                 \<and> entry_path_cost (chain_env 100 3) [(2, 0, 0), (1, 1, 0), (0, 0, 0)] = Some 4)))"
  by code_simp

text \<open>
  Claim C3 fails on the code. After a cost change has reset \<open>epsilon_satisfied\<close>,
  \<open>search\<close> moves the inconsistent list into the heap without starting a new iteration.
  Entry A = (1, 0, 0), closed in the current iteration with g = 10, has its \<open>rhs\<close> lowered to
  5 by \<open>CostsChanged\<close> and is stashed in the inconsistent list; the next search puts it in
  the heap, where it still is when the budget ends: in the heap with
  \<open>closed_iteration = iteration\<close>.
\<close>

theorem closed_entry_reenters_open:
  "(case search (chain_env 10 30) [10] 10 planner_new_goal [] of
      None \<Rightarrow> False
    | Some (ok1, pts1, st1) \<Rightarrow>
       (case makePlan_update (chain_env 5 3) (Some (0, 0, 0)) (Some (2, 0, 0)) [(1, 0), (1, 1)] st1 of
          (reached, st2) \<Rightarrow>
            reached \<and>
            (case search (chain_env 5 3) [1] 10 st2 [] of
               None \<Rightarrow> False
             | Some (ok2, pts2, st3) \<Rightarrow>
                 (1, 0, 0) \<in> set (open_heap st3)
                 \<and> closed_iteration (entries st3 (1, 0, 0)) = iteration st3
                 \<and> g (entries st3 (1, 0, 0)) = 10 \<and> rhs (entries st3 (1, 0, 0)) = 5
                 \<and> \<not> priority_set_invariant st3 (1, 0, 0))))"
  by code_simp

section \<open>The supervisor: published velocity, planning timeouts and recovery\<close>

lemma trace_emit [simp]: "trace (emit e st) = trace st @ [e]"
  by (simp add: emit_def)

lemma new_events_append [simp]: "trace st' = trace st @ evs \<Longrightarrow> new_events st st' = evs"
  by (simp add: new_events_def)

lemma trace_PublishZeroVelocity:
  "trace (PublishZeroVelocity st) =
     trace st @ (if \<bar>linear_x (last_valid_cmd_vel st)\<bar> > 0.001 then [Vel_pub zero_twist] else [])"
  by (simp add: PublishZeroVelocity_def)

lemma emit_fields [simp]:
  "state (emit e st) = state st" "recovery_trigger (emit e st) = recovery_trigger st"
  "planning_state (emit e st) = planning_state st" "runPlanner (emit e st) = runPlanner st"
  "gotInitPlan (emit e st) = gotInitPlan st" "switch_path (emit e st) = switch_path st"
  "using_sbpl_directly (emit e st) = using_sbpl_directly st"
  "last_using_bezier (emit e st) = last_using_bezier st"
  "replan_directly (emit e st) = replan_directly st" "astar_path (emit e st) = astar_path st"
  "cmd_vel_ratio (emit e st) = cmd_vel_ratio st"
  "front_safe_check_cnt (emit e st) = front_safe_check_cnt st"
  "astar_planner_timeout_cnt (emit e st) = astar_planner_timeout_cnt st"
  "try_recovery_times (emit e st) = try_recovery_times st"
  "local_planner_timeout_cnt (emit e st) = local_planner_timeout_cnt st"
  "fix_local_planner_error_cnt (emit e st) = fix_local_planner_error_cnt st"
  "last_valid_cmd_vel (emit e st) = last_valid_cmd_vel st"
  "run_flag (emit e st) = run_flag st" "pause_flag (emit e st) = pause_flag st"
  by (simp_all add: emit_def)

lemma PublishZeroVelocity_fields [simp]:
  "state (PublishZeroVelocity st) = state st"
  "recovery_trigger (PublishZeroVelocity st) = recovery_trigger st"
  "planning_state (PublishZeroVelocity st) = planning_state st"
  "runPlanner (PublishZeroVelocity st) = runPlanner st"
  "gotInitPlan (PublishZeroVelocity st) = gotInitPlan st"
  "switch_path (PublishZeroVelocity st) = switch_path st"
  "front_safe_check_cnt (PublishZeroVelocity st) = front_safe_check_cnt st"
  "astar_planner_timeout_cnt (PublishZeroVelocity st) = astar_planner_timeout_cnt st"
  "try_recovery_times (PublishZeroVelocity st) = try_recovery_times st"
  "local_planner_timeout_cnt (PublishZeroVelocity st) = local_planner_timeout_cnt st"
  "fix_local_planner_error_cnt (PublishZeroVelocity st) = fix_local_planner_error_cnt st"
  "run_flag (PublishZeroVelocity st) = run_flag st"
  "pause_flag (PublishZeroVelocity st) = pause_flag st"
  by (simp_all add: PublishZeroVelocity_def)


text \<open>
  Claim C10. Every velocity command published from the local-controller branch of
  FIX_CONTROLLING has an angular speed outside the open interval (0.08, 0.18): the command of
  the local planner is multiplied by \<open>cmd_vel_ratio\<close> (and by 0.75 after a recent error of
  the local planner), and an \<open>angular_z\<close> with 0.08 < |angular_z| < 0.18 is replaced by
  0.18 or -0.18, keeping its sign, before it is published. The zero velocity published when
  the local planner has failed three times or more is outside the interval as well.
\<close>

theorem published_angular_outside_band:
  "(\<forall>c. Vel_pub c \<in> set (new_events st (local_controller_publish late cmd st))
        \<longrightarrow> \<not> (0.08 < \<bar>angular_z c\<bar> \<and> \<bar>angular_z c\<bar> < 0.18))
   \<and> (fix_local_planner_error_cnt st < 3 \<longrightarrow>
        (\<exists>c. new_events st (local_controller_publish late cmd st)
               = [Vel_pub c, Call_PublishHeadingGoal, PublishMovebaseStatus I_GOAL_HEADING]
           \<and> angular_z c =
               (let z = angular_z cmd * cmd_vel_ratio st
                          * (if fix_local_planner_error_cnt st > 0 then 0.75 else 1)
                in if 0.08 < \<bar>z\<bar> \<and> \<bar>z\<bar> < 0.18 then (if z > 0 then 0.18 else - 0.18) else z)))"
proof -
  define z where "z = angular_z cmd * cmd_vel_ratio st
                          * (if fix_local_planner_error_cnt st > 0 then 0.75 else 1)"
  define zc where "zc = (if 0.08 < \<bar>z\<bar> \<and> \<bar>z\<bar> < 0.18 then (if z > 0 then 0.18 else - 0.18) else z)"
  define c3 where "c3 = cmd\<lparr>linear_x := linear_x cmd * cmd_vel_ratio st
                          * (if fix_local_planner_error_cnt st > 0 then 0.75 else 1), angular_z := zc\<rparr>"
  have band: "\<not> (0.08 < \<bar>zc\<bar> \<and> \<bar>zc\<bar> < 0.18)"
    unfolding zc_def by (simp split: if_splits)
  have pub: "new_events st (local_controller_publish late cmd st)
               = [Vel_pub c3, Call_PublishHeadingGoal, PublishMovebaseStatus I_GOAL_HEADING]"
    if "fix_local_planner_error_cnt st < 3"
    using that unfolding c3_def zc_def z_def
    by (simp add: local_controller_publish_def Let_def conj_commute)
  have zero: "new_events st (local_controller_publish late cmd st) = [] \<or>
              new_events st (local_controller_publish late cmd st) = [Vel_pub zero_twist]"
    if "\<not> fix_local_planner_error_cnt st < 3"
    using that by (simp add: local_controller_publish_def trace_PublishZeroVelocity)
  have z3: "angular_z c3 = zc" by (simp add: c3_def)
  show ?thesis
  proof (intro conjI allI impI)
    fix c assume c: "Vel_pub c \<in> set (new_events st (local_controller_publish late cmd st))"
    show "\<not> (0.08 < \<bar>angular_z c\<bar> \<and> \<bar>angular_z c\<bar> < 0.18)"
    proof (cases "fix_local_planner_error_cnt st < 3")
      case True
      with c pub have "c = c3" by simp
      with band z3 show ?thesis by simp
    next
      case False
      with c zero have "c = zero_twist" by auto
      then show ?thesis by (simp add: zero_twist_def)
    qed
  next
    assume lt: "fix_local_planner_error_cnt st < 3"
    show "\<exists>c. new_events st (local_controller_publish late cmd st)
               = [Vel_pub c, Call_PublishHeadingGoal, PublishMovebaseStatus I_GOAL_HEADING]
           \<and> angular_z c =
               (let z = angular_z cmd * cmd_vel_ratio st
                          * (if fix_local_planner_error_cnt st > 0 then 0.75 else 1)
                in if 0.08 < \<bar>z\<bar> \<and> \<bar>z\<bar> < 0.18 then (if z > 0 then 0.18 else - 0.18) else z)"
      using pub [OF lt] z3 unfolding zc_def z_def Let_def by blast
  qed
qed

lemma PlanThread_no_plan_timeout:
  "astar_planner_timeout_cnt (rearm st) = astar_planner_timeout_cnt st + 1"
  "gotInitPlan (rearm st) = gotInitPlan st"
  "run_flag (rearm st) = (run_flag st \<and> \<not> (\<not> gotInitPlan st \<and> astar_planner_timeout_cnt st + 1 > 4))"
  "(PublishMovebaseStatus I_GOAL_UNREACHABLE \<in> set (trace (rearm st))) =
         (PublishMovebaseStatus I_GOAL_UNREACHABLE \<in> set (trace st)
          \<or> (\<not> gotInitPlan st \<and> astar_planner_timeout_cnt st + 1 > 4))"
  by (simp_all add: rearm_def PlanThread_no_plan_def Let_def trace_PublishZeroVelocity)

lemma consecutive_timeouts_count:
  "\<not> gotInitPlan st \<Longrightarrow> 0 \<le> astar_planner_timeout_cnt st \<Longrightarrow>
     run_flag (consecutive_timeouts n st) = (run_flag st \<and> (n = 0 \<or> astar_planner_timeout_cnt st + int n \<le> 4))
     \<and> (PublishMovebaseStatus I_GOAL_UNREACHABLE \<in> set (trace (consecutive_timeouts n st))) =
         (PublishMovebaseStatus I_GOAL_UNREACHABLE \<in> set (trace st)
          \<or> (n > 0 \<and> astar_planner_timeout_cnt st + int n > 4))"
proof (induction n arbitrary: st)
  case 0
  then show ?case by simp
next
  case (Suc n)
  note step = PlanThread_no_plan_timeout [of st]
  have g: "\<not> gotInitPlan (rearm st)" and c: "0 \<le> astar_planner_timeout_cnt (rearm st)"
    using step Suc.prems by auto
  have unf: "consecutive_timeouts (Suc n) st = consecutive_timeouts n (rearm st)"
    by (simp add: rearm_def)
  show ?case
    unfolding unf using Suc.IH [OF g c] step Suc.prems by auto
qed

text \<open>
  Claim C8. When the planner worker has no plan in state A_PLANNING, the planner patience has
  run out and no initial plan exists, the timeout that makes \<open>astar_planner_timeout_cnt\<close>
  exceed 4 clears \<open>run_flag\<close> and emits I_GOAL_UNREACHABLE. Counted from zero, the first
  four consecutive timeouts leave \<open>run_flag\<close> set, and from the fifth on it is cleared and
  the status has been emitted.
\<close>

theorem worker_gives_up_after_timeouts:
  "(state st = A_PLANNING \<and> late \<and> runPlanner st \<and> \<not> gotInitPlan st \<and> astar_planner_timeout_cnt st \<ge> 4
      \<longrightarrow> \<not> run_flag (PlanThread_no_plan late st)
          \<and> new_events st (PlanThread_no_plan late st)
              = (if \<bar>linear_x (last_valid_cmd_vel st)\<bar> > 0.001 then [Vel_pub zero_twist] else [])
                @ [PublishMovebaseStatus I_GOAL_UNREACHABLE])
   \<and> (astar_planner_timeout_cnt st = 0 \<and> \<not> gotInitPlan st \<and> run_flag st
        \<and> PublishMovebaseStatus I_GOAL_UNREACHABLE \<notin> set (trace st)
      \<longrightarrow> run_flag (consecutive_timeouts n st) = (n \<le> 4)
          \<and> (PublishMovebaseStatus I_GOAL_UNREACHABLE \<in> set (trace (consecutive_timeouts n st))) = (n > 4))"
proof (intro conjI impI)
  assume a: "state st = A_PLANNING \<and> late \<and> runPlanner st \<and> \<not> gotInitPlan st \<and> astar_planner_timeout_cnt st \<ge> 4"
  then show "\<not> run_flag (PlanThread_no_plan late st)"
    by (simp add: PlanThread_no_plan_def Let_def)
  from a show "new_events st (PlanThread_no_plan late st)
              = (if \<bar>linear_x (last_valid_cmd_vel st)\<bar> > 0.001 then [Vel_pub zero_twist] else [])
                @ [PublishMovebaseStatus I_GOAL_UNREACHABLE]"
    by (simp add: PlanThread_no_plan_def Let_def new_events_def trace_PublishZeroVelocity)
next
  assume b: "astar_planner_timeout_cnt st = 0 \<and> \<not> gotInitPlan st \<and> run_flag st
        \<and> PublishMovebaseStatus I_GOAL_UNREACHABLE \<notin> set (trace st)"
  then have g: "\<not> gotInitPlan st" and c: "0 \<le> astar_planner_timeout_cnt st" by auto
  from consecutive_timeouts_count [OF g c, of n] b
  show "run_flag (consecutive_timeouts n st) = (n \<le> 4)" by auto
  from consecutive_timeouts_count [OF g c, of n] b
  show "(PublishMovebaseStatus I_GOAL_UNREACHABLE \<in> set (trace (consecutive_timeouts n st))) = (n > 4)"
    by auto
qed

text \<open>
  The fifth timeout in a row, and not the fourth, ends the goal.
\<close>

theorem worker_gives_up_after_timeouts_witness:
  "\<not> run_flag (PlanThread_no_plan True (controller0\<lparr>state := A_PLANNING, runPlanner := True, astar_planner_timeout_cnt := 4\<rparr>))
   \<and> run_flag (consecutive_timeouts 4 controller0)
   \<and> \<not> run_flag (consecutive_timeouts 5 controller0)
   \<and> PublishMovebaseStatus I_GOAL_UNREACHABLE \<in> set (trace (consecutive_timeouts 5 controller0))"
  using worker_gives_up_after_timeouts [of "controller0\<lparr>state := A_PLANNING, runPlanner := True, astar_planner_timeout_cnt := 4\<rparr>" True 0]
    worker_gives_up_after_timeouts [of controller0 True 4]
    worker_gives_up_after_timeouts [of controller0 True 5]
  by (simp add: controller0_def)

text \<open>
  Claim C7 as stated fails: with \<open>use_farther_planner\<close> set, thirteen planner timeouts
  and a free footprint leave \<open>run_flag\<close> set.
\<close>

theorem global_recovery_unreachable_counterexample:
  "\<not> (\<forall>st use_farther_planner.
        astar_planner_timeout_cnt st > 12 \<or> try_recovery_times st > 8 \<longrightarrow>
          \<not> run_flag (snd (global_planner_recovery False use_farther_planner st))
          \<and> PublishMovebaseStatus I_GOAL_UNREACHABLE
              \<in> set (trace (snd (global_planner_recovery False use_farther_planner st))))"
proof
  assume "\<forall>st use_farther_planner.
        astar_planner_timeout_cnt st > 12 \<or> try_recovery_times st > 8 \<longrightarrow>
          \<not> run_flag (snd (global_planner_recovery False use_farther_planner st))
          \<and> PublishMovebaseStatus I_GOAL_UNREACHABLE
              \<in> set (trace (snd (global_planner_recovery False use_farther_planner st)))"
  then have "astar_planner_timeout_cnt (controller0\<lparr>astar_planner_timeout_cnt := 13\<rparr>) > 12
               \<or> try_recovery_times (controller0\<lparr>astar_planner_timeout_cnt := 13\<rparr>) > 8 \<longrightarrow>
             \<not> run_flag (snd (global_planner_recovery False True (controller0\<lparr>astar_planner_timeout_cnt := 13\<rparr>)))"
    by blast
  then show False
    by (simp add: global_planner_recovery_def controller0_def RotateRecovery_def emit_def Let_def)
qed

text \<open>
  Claim C7, amended. When GLOBAL_PLANNER_RECOVERY_R is handled and the footprint check passes,
  more than 12 planner timeouts or more than 8 recovery attempts make the supervisor emit
  I_GOAL_UNREACHABLE and clear \<open>run_flag\<close> (and \<open>pause_flag\<close>), provided the option
  \<open>use_farther_planner\<close> is off.
\<close>

theorem global_recovery_unreachable:
  "(astar_planner_timeout_cnt st > 12 \<or> try_recovery_times st > 8) \<and> \<not> use_farther_planner \<longrightarrow>
     global_planner_recovery False use_farther_planner st
       = (True, (emit (PublishMovebaseStatus I_GOAL_UNREACHABLE) (emit Call_HandleGoingBack st))
                  \<lparr>run_flag := False, pause_flag := False\<rparr>)"
  by (simp add: global_planner_recovery_def Let_def emit_def)

text \<open>
  Thirteen timeouts, or nine recovery attempts, with \<open>use_farther_planner\<close> off.
\<close>

theorem global_recovery_unreachable_witness:
  "\<not> run_flag (snd (global_planner_recovery False False (controller0\<lparr>astar_planner_timeout_cnt := 13\<rparr>)))
   \<and> trace (snd (global_planner_recovery False False (controller0\<lparr>try_recovery_times := 9\<rparr>)))
       = [Call_HandleGoingBack, PublishMovebaseStatus I_GOAL_UNREACHABLE]"
  using global_recovery_unreachable [of "controller0\<lparr>astar_planner_timeout_cnt := 13\<rparr>" False]
    global_recovery_unreachable [of "controller0\<lparr>try_recovery_times := 9\<rparr>" False]
  by (simp add: controller0_def emit_def)

section \<open>Choice of the global planner\<close>

lemma PoseStampedDistance_x [simp]: "PoseStampedDistance (a, y, t) (b, y, u) = \<bar>a - b\<bar>"
  by (simp add: PoseStampedDistance_def)

lemma MakePlan_short:
  "\<not> costmap_ros_null r \<Longrightarrow> PoseStampedDistance start goal \<le> 0.25 \<Longrightarrow>
     MakePlan sbpl_max_distance r start goal st
        = (True, [start, goal],
           st\<lparr>using_sbpl_directly := True, last_using_bezier := False, replan_directly := False,
              astar_path := Short_sbpl_path [start, goal]\<rparr>)"
  by (simp add: MakePlan_def Let_def)

lemma MakePlan_bezier:
  assumes "\<not> costmap_ros_null r" "0.25 < PoseStampedDistance start goal"
    "PoseStampedDistance start goal \<le> 2.0" "\<not> last_using_bezier st"
  shows "trace (snd (snd (MakePlan sbpl_max_distance r start goal st))) = trace st @ [Call_MakeBezierPlan]"
    and "last_using_bezier (snd (snd (MakePlan sbpl_max_distance r start goal st)))"
    and "\<not> fst (MakePlan sbpl_max_distance r start goal st) \<Longrightarrow>
           replan_directly (snd (snd (MakePlan sbpl_max_distance r start goal st)))"
  using assms by (auto simp add: MakePlan_def Let_def split: option.splits if_splits)

lemma MakePlan_sbpl:
  assumes "\<not> costmap_ros_null r" "0.25 < PoseStampedDistance start goal"
    "last_using_bezier st \<or> 2.0 < PoseStampedDistance start goal"
    "PoseStampedDistance start goal \<le> sbpl_max_distance"
  shows "trace (snd (snd (MakePlan sbpl_max_distance r start goal st))) = trace st @ [Call_sbpl_makePlan]"
    and "fst (MakePlan sbpl_max_distance r start goal st)
          = (sbpl_makePlan r \<noteq> None \<and> sbpl_makePlan r \<noteq> Some [])"
  using assms by (auto simp add: MakePlan_def Let_def split: option.splits)

lemma MakePlan_astar:
  assumes "\<not> costmap_ros_null r" "0.25 < PoseStampedDistance start goal"
    "last_using_bezier st \<or> 2.0 < PoseStampedDistance start goal"
    "sbpl_max_distance < PoseStampedDistance start goal"
  shows "take (Suc (length (trace st))) (trace (snd (snd (MakePlan sbpl_max_distance r start goal st))))
           = trace st @ [Call_astar_makePlan]"
    and "astar_makePlan r = Some plan \<Longrightarrow> plan \<noteq> [] \<Longrightarrow>
            MakePlan sbpl_max_distance r start goal st
              = (True, plan,
                 (emit Call_astar_makePlan
                    (st\<lparr>using_sbpl_directly := False, last_using_bezier := False, replan_directly := False\<rparr>))
                 \<lparr>astar_path := Fix_path (SampleInitialPath r plan)\<rparr>)"
  using assms by (auto simp add: MakePlan_def Let_def emit_def split: option.splits)

lemma plan_attempt_after_bezier:
  assumes "\<not> costmap_ros_null r" "\<not> costmap_ros_null r2" "0.25 < PoseStampedDistance start goal"
    "PoseStampedDistance start goal \<le> 2.0" "\<not> last_using_bezier st"
    "\<not> fst (MakePlan sbpl_max_distance r start goal st)"
  shows "take 2 (new_events st (snd (snd (plan_attempt sbpl_max_distance r r2 start goal st))))
                 = [Call_MakeBezierPlan,
                    if PoseStampedDistance start goal \<le> sbpl_max_distance
                    then Call_sbpl_makePlan else Call_astar_makePlan]"
proof -
  define st1 where "st1 = (snd (snd (MakePlan sbpl_max_distance r start goal st)))\<lparr>replan_directly := False\<rparr>"
  have t1: "trace st1 = trace st @ [Call_MakeBezierPlan]"
    and l1: "last_using_bezier st1"
    using MakePlan_bezier(1,2) [OF assms(1,3,4,5), of sbpl_max_distance] by (simp_all add: st1_def)
  have rd: "replan_directly (snd (snd (MakePlan sbpl_max_distance r start goal st)))"
    using MakePlan_bezier(3) [OF assms(1,3,4,5) assms(6)] .
  have pa: "plan_attempt sbpl_max_distance r r2 start goal st = MakePlan sbpl_max_distance r2 start goal st1"
    using rd by (simp add: plan_attempt_def Let_def st1_def)
  show ?thesis
  proof (cases "PoseStampedDistance start goal \<le> sbpl_max_distance")
    case True
    have "trace (snd (snd (MakePlan sbpl_max_distance r2 start goal st1))) = trace st1 @ [Call_sbpl_makePlan]"
      using MakePlan_sbpl(1) [OF assms(2,3) _ True, of st1] l1 by simp
    then show ?thesis using True t1 pa by (simp add: new_events_def)
  next
    case False
    then have gt: "sbpl_max_distance < PoseStampedDistance start goal" by simp
    have "take (Suc (length (trace st1))) (trace (snd (snd (MakePlan sbpl_max_distance r2 start goal st1))))
            = trace st1 @ [Call_astar_makePlan]"
      using MakePlan_astar(1) [OF assms(2,3) _ gt, of st1] l1 by simp
    then have "take (length (trace st) + 2) (trace (snd (snd (MakePlan sbpl_max_distance r2 start goal st1))))
            = trace st @ [Call_MakeBezierPlan, Call_astar_makePlan]"
      using t1 by simp
    then have "take 2 (drop (length (trace st)) (trace (snd (snd (MakePlan sbpl_max_distance r2 start goal st1)))))
            = drop (length (trace st)) (trace st @ [Call_MakeBezierPlan, Call_astar_makePlan])"
      by (metis add.commute drop_take add_diff_cancel_left')
    then show ?thesis using False pa by (simp add: new_events_def)
  qed
qed

text \<open>
  Claim C5. The third range of the claim, 2.0 < d \<le> \<open>sbpl_max_distance\<close>, presupposes
  \<open>sbpl_max_distance\<close> \<ge> 2.0. With d the straight-line distance from start to goal and the
  costmap present: d \<le> 0.25 gives the two-point path start, goal as the plan;
  0.25 < d \<le> 2.0 with the previous attempt not B\'ezier calls the B\'ezier planner, and its
  failure sets \<open>replan_directly\<close>, on which the worker plans again at once, with the lattice
  planner; 2.0 < d \<le> \<open>sbpl_max_distance\<close> calls the lattice planner;
  d > \<open>sbpl_max_distance\<close> calls the 2D A* planner, whose plan is sampled into the fix path.
\<close>

theorem planner_selection:
  "\<not> costmap_ros_null r \<and> 2.0 \<le> sbpl_max_distance \<longrightarrow>
   (PoseStampedDistance start goal \<le> 0.25 \<longrightarrow>
      MakePlan sbpl_max_distance r start goal st
        = (True, [start, goal],
           st\<lparr>using_sbpl_directly := True, last_using_bezier := False, replan_directly := False,
              astar_path := Short_sbpl_path [start, goal]\<rparr>))
   \<and> (0.25 < PoseStampedDistance start goal \<and> PoseStampedDistance start goal \<le> 2.0
        \<and> \<not> last_using_bezier st \<longrightarrow>
      new_events st (snd (snd (MakePlan sbpl_max_distance r start goal st))) = [Call_MakeBezierPlan]
      \<and> (\<not> fst (MakePlan sbpl_max_distance r start goal st) \<longrightarrow>
           replan_directly (snd (snd (MakePlan sbpl_max_distance r start goal st)))
           \<and> (\<not> costmap_ros_null r2 \<longrightarrow>
               take 2 (new_events st (snd (snd (plan_attempt sbpl_max_distance r r2 start goal st))))
                 = [Call_MakeBezierPlan, Call_sbpl_makePlan])))
   \<and> (2.0 < PoseStampedDistance start goal \<and> PoseStampedDistance start goal \<le> sbpl_max_distance \<longrightarrow>
      new_events st (snd (snd (MakePlan sbpl_max_distance r start goal st))) = [Call_sbpl_makePlan]
      \<and> fst (MakePlan sbpl_max_distance r start goal st)
          = (sbpl_makePlan r \<noteq> None \<and> sbpl_makePlan r \<noteq> Some []))
   \<and> (sbpl_max_distance < PoseStampedDistance start goal \<longrightarrow>
      take 1 (new_events st (snd (snd (MakePlan sbpl_max_distance r start goal st)))) = [Call_astar_makePlan]
      \<and> (\<forall>plan. astar_makePlan r = Some plan \<and> plan \<noteq> [] \<longrightarrow>
            MakePlan sbpl_max_distance r start goal st
              = (True, plan,
                 (emit Call_astar_makePlan
                    (st\<lparr>using_sbpl_directly := False, last_using_bezier := False, replan_directly := False\<rparr>))
                 \<lparr>astar_path := Fix_path (SampleInitialPath r plan)\<rparr>)))"
proof (intro impI conjI allI)
  assume n0: "\<not> costmap_ros_null r \<and> 2.0 \<le> sbpl_max_distance"
  then have n: "\<not> costmap_ros_null r" and m: "2.0 \<le> sbpl_max_distance"
    by simp_all
  {
    assume "PoseStampedDistance start goal \<le> 0.25"
    then show "MakePlan sbpl_max_distance r start goal st
        = (True, [start, goal],
           st\<lparr>using_sbpl_directly := True, last_using_bezier := False, replan_directly := False,
              astar_path := Short_sbpl_path [start, goal]\<rparr>)"
      using MakePlan_short [OF n] by simp
  next
    assume a: "0.25 < PoseStampedDistance start goal \<and> PoseStampedDistance start goal \<le> 2.0
        \<and> \<not> last_using_bezier st"
    then show "new_events st (snd (snd (MakePlan sbpl_max_distance r start goal st))) = [Call_MakeBezierPlan]"
      using MakePlan_bezier(1) [OF n, of start goal st sbpl_max_distance] by simp
    {
      assume f: "\<not> fst (MakePlan sbpl_max_distance r start goal st)"
      show "replan_directly (snd (snd (MakePlan sbpl_max_distance r start goal st)))"
        using MakePlan_bezier(3) [OF n _ _ _ f] a by simp
      assume "\<not> costmap_ros_null r2"
      then show "take 2 (new_events st (snd (snd (plan_attempt sbpl_max_distance r r2 start goal st))))
                 = [Call_MakeBezierPlan, Call_sbpl_makePlan]"
        using plan_attempt_after_bezier [OF n _ _ _ _ f] a m by simp
    }
  next
    assume a: "2.0 < PoseStampedDistance start goal \<and> PoseStampedDistance start goal \<le> sbpl_max_distance"
    then have q: "0.25 < PoseStampedDistance start goal" by simp
    show "new_events st (snd (snd (MakePlan sbpl_max_distance r start goal st))) = [Call_sbpl_makePlan]"
      using MakePlan_sbpl(1) [OF n q, of st sbpl_max_distance] a by simp
    show "fst (MakePlan sbpl_max_distance r start goal st)
          = (sbpl_makePlan r \<noteq> None \<and> sbpl_makePlan r \<noteq> Some [])"
      using MakePlan_sbpl(2) [OF n q, of st sbpl_max_distance] a by simp
  next
    assume a0: "sbpl_max_distance < PoseStampedDistance start goal"
    then have a: "sbpl_max_distance < PoseStampedDistance start goal \<and> 2.0 < PoseStampedDistance start goal"
      using m by simp
    then have q: "0.25 < PoseStampedDistance start goal" by simp
    have "take (Suc (length (trace st))) (trace (snd (snd (MakePlan sbpl_max_distance r start goal st))))
           = trace st @ [Call_astar_makePlan]"
      using MakePlan_astar(1) [OF n q, of st sbpl_max_distance] a by simp
    then have "take 1 (drop (length (trace st)) (trace (snd (snd (MakePlan sbpl_max_distance r start goal st)))))
           = drop (length (trace st)) (trace st @ [Call_astar_makePlan])"
      by (metis Suc_eq_plus1 add.commute drop_take add_diff_cancel_left')
    then show "take 1 (new_events st (snd (snd (MakePlan sbpl_max_distance r start goal st)))) = [Call_astar_makePlan]"
      by (simp add: new_events_def)
    fix plan
    assume "astar_makePlan r = Some plan \<and> plan \<noteq> []"
    then show "MakePlan sbpl_max_distance r start goal st
              = (True, plan,
                 (emit Call_astar_makePlan
                    (st\<lparr>using_sbpl_directly := False, last_using_bezier := False, replan_directly := False\<rparr>))
                 \<lparr>astar_path := Fix_path (SampleInitialPath r plan)\<rparr>)"
      using MakePlan_astar(2) [OF n q, of st sbpl_max_distance plan] a by simp
  }
qed

section \<open>The front safety check\<close>






lemma PublishVelWithAcc_loop_zero_acc:
  "0.05 \<le> linear_x cmd \<Longrightarrow> set ticks \<subseteq> {(True, True)} \<Longrightarrow>
     PublishVelWithAcc_loop 0 ticks cmd st = None"
proof (induction ticks arbitrary: st)
  case Nil
  then show ?case by simp
next
  case (Cons t rest)
  have t: "t = (True, True)" and r: "set rest \<subseteq> {(True, True)}"
    using Cons.prems(2) by auto
  have c: "cmd\<lparr>linear_x := linear_x cmd\<rparr> = cmd"
    by simp
  have "PublishVelWithAcc_loop 0 (t # rest) cmd st
          = PublishVelWithAcc_loop 0 rest cmd (emit (Vel_pub cmd) st)"
    using Cons.prems(1) t by (simp add: c)
  then show ?case
    using Cons.IH [OF Cons.prems(1) r] by simp
qed





section \<open>Concrete cycles of the supervisor\<close>

text \<open>
  A command with angular speed 0.1 leaves the supervisor with angular speed 0.18.
\<close>

theorem published_angular_outside_band_witness:
  "fix_local_planner_error_cnt controller0 < 3
   \<and> (\<exists>c. new_events controller0 (local_controller_publish False turn_cmd controller0)
            = [Vel_pub c, Call_PublishHeadingGoal, PublishMovebaseStatus I_GOAL_HEADING]
          \<and> angular_z c = 0.18)"
  using published_angular_outside_band [of controller0 False turn_cmd]
  by (simp add: controller0_def turn_cmd_def)

text \<open>
  Claim C5 at the distances 0, 1, 3 and 6 with \<open>sbpl_max_distance\<close> = 5.
\<close>

theorem planner_selection_witness:
  "MakePlan 5 no_results (0, 0, 0) (0, 0, 0) controller0
     = (True, [(0, 0, 0), (0, 0, 0)],
        controller0\<lparr>using_sbpl_directly := True, last_using_bezier := False, replan_directly := False,
              astar_path := Short_sbpl_path [(0, 0, 0), (0, 0, 0)]\<rparr>)
   \<and> PoseStampedDistance (0, 0, 0) (1, 0, 0) = 1
   \<and> new_events controller0 (snd (snd (MakePlan 5 no_results (0, 0, 0) (1, 0, 0) controller0)))
       = [Call_MakeBezierPlan]
   \<and> take 2 (new_events controller0 (snd (snd (plan_attempt 5 no_results no_results (0, 0, 0) (1, 0, 0) controller0))))
       = [Call_MakeBezierPlan, Call_sbpl_makePlan]
   \<and> PoseStampedDistance (0, 0, 0) (3, 0, 0) = 3
   \<and> new_events controller0 (snd (snd (MakePlan 5 no_results (0, 0, 0) (3, 0, 0) controller0)))
       = [Call_sbpl_makePlan]
   \<and> PoseStampedDistance (0, 0, 0) (6, 0, 0) = 6
   \<and> take 1 (new_events controller0 (snd (snd (MakePlan 5 no_results (0, 0, 0) (6, 0, 0) controller0))))
       = [Call_astar_makePlan]"
proof -
  have n: "\<not> costmap_ros_null no_results" and l: "\<not> last_using_bezier controller0"
    by (simp_all add: no_results_def controller0_def)
  have f: "\<not> fst (MakePlan 5 no_results (0, 0, 0) (1, 0, 0) controller0)"
    by (simp add: MakePlan_def no_results_def controller0_def Let_def)
  show ?thesis
    using planner_selection [where r = no_results and ?r2.0 = no_results and sbpl_max_distance = 5
                               and st = controller0 and start = "(0, 0, 0)" and goal = "(0, 0, 0)"]
      planner_selection [where r = no_results and ?r2.0 = no_results and sbpl_max_distance = 5
                               and st = controller0 and start = "(0, 0, 0)" and goal = "(1, 0, 0)"]
      planner_selection [where r = no_results and ?r2.0 = no_results and sbpl_max_distance = 5
                               and st = controller0 and start = "(0, 0, 0)" and goal = "(3, 0, 0)"]
      planner_selection [where r = no_results and ?r2.0 = no_results and sbpl_max_distance = 5
                               and st = controller0 and start = "(0, 0, 0)" and goal = "(6, 0, 0)"]
      n l f
    by simp
qed


text \<open>
  Claim C9 fails on the code. The wait for a new goal in FIX_GETNEWGOAL_R does not read
  \<open>run_flag\<close>: with \<open>run_flag\<close> false at every iteration and no goal found, it runs all
  three iterations the time allows, where the goal-safety wait runs none.
\<close>

theorem new_goal_wait_ignores_run_flag:
  "new_goal_wait [(False, False), (False, False), (False, False)] 0 = (False, 3)
   \<and> goal_safe_wait [(False, False), (False, False), (False, False)] 0 0 = (False, 0)"
  by simp

end
